theory Spec2Isabelle
  imports Complex_Main "HOL-Library.Sublist"
begin

section \<open>NHITS: the interpolation basis, the block, the stack builder and the forecast loop\<close>

text \<open>
  A shallow embedding of \<^verbatim>\<open>nbs/models.nhits.ipynb\<close>: the classes
  \<^verbatim>\<open>_IdentityBasis\<close>, \<^verbatim>\<open>NHITSBlock\<close> and \<^verbatim>\<open>NHITS\<close>.

  \<^item> Python integers are \<open>int\<close>; tensor entries are \<open>real\<close> (exact arithmetic in place
    of floating point). The residual update of the forecast loop is given a second
    time over float values with their infinities and NaN, where the product with a
    zero mask is not always zero.
  \<^item> A tensor is a rectangular nested list, one list level per axis. An axis of size 0
    forgets the sizes of the axes inside it.
  \<^item> Every \<^verbatim>\<open>raise\<close> and failed \<^verbatim>\<open>assert\<close> of the source, and every
    shape error of a tensor operation it calls, is a value \<open>Inl e\<close>.
\<close>

subsection \<open>Errors\<close>

datatype error =
    AssertionError string
  | NotImplementedError string
  | IndexError
  | ZeroDivisionError
  | AttributeError
  | UnboundLocalError
  | RuntimeError string

definition and_then :: "error + 'a \<Rightarrow> ('a \<Rightarrow> error + 'b) \<Rightarrow> error + 'b" where
  "and_then r f = (case r of Inl e \<Rightarrow> Inl e | Inr v \<Rightarrow> f v)"

text \<open>A list of results in evaluation order: the first error, or all the values.\<close>

fun sequence :: "(error + 'a) list \<Rightarrow> error + 'a list" where
  "sequence [] = Inr []"
| "sequence (r # rs) = and_then r (\<lambda>v. and_then (sequence rs) (\<lambda>vs. Inr (v # vs)))"

subsection \<open>Python lists\<close>

definition getitem :: "'a list \<Rightarrow> int \<Rightarrow> error + 'a" where
  \<comment> \<open>\<^verbatim>\<open>xs[i]\<close>: a negative index counts from the end\<close>
  "getitem xs i =
     (if 0 \<le> i \<and> i < int (length xs) then Inr (xs ! nat i)
      else if i < 0 \<and> - int (length xs) \<le> i then Inr (xs ! nat (int (length xs) + i))
      else Inl IndexError)"

definition slice_to :: "'a list \<Rightarrow> int \<Rightarrow> 'a list" where
  \<comment> \<open>\<^verbatim>\<open>xs[:k]\<close>\<close>
  "slice_to xs k = (if 0 \<le> k then take (nat k) xs else take (length xs - nat (- k)) xs)"

definition slice_from :: "'a list \<Rightarrow> int \<Rightarrow> 'a list" where
  \<comment> \<open>\<^verbatim>\<open>xs[k:]\<close>\<close>
  "slice_from xs k = (if 0 \<le> k then drop (nat k) xs else drop (length xs - nat (- k)) xs)"

definition py_repr :: "string list \<Rightarrow> string" where
  \<comment> \<open>how an f-string prints a list of strings\<close>
  "py_repr xs =
     ''['' @ concat (map (\<lambda>(i, s). (if i = 0 then [] else '', '') @ [CHR 0x27] @ s @ [CHR 0x27])
                         (zip [0..<length xs] xs)) @ '']''"

subsection \<open>The basis and the block, as constructed\<close>

record IdentityBasis =
  forecast_size :: int
  backcast_size :: int
  interpolation_mode :: string
  out_features :: int

definition IdentityBasis_init :: "int \<Rightarrow> int \<Rightarrow> string \<Rightarrow> int \<Rightarrow> error + IdentityBasis" where
  "IdentityBasis_init backcast_size' forecast_size' interpolation_mode' out_features' =
     (if interpolation_mode' \<in> set [''linear'', ''nearest'']
         \<or> sublist ''cubic'' interpolation_mode'
      then Inr \<lparr>forecast_size = forecast_size', backcast_size = backcast_size',
                interpolation_mode = interpolation_mode', out_features = out_features'\<rparr>
      else Inl (AssertionError []))"

definition ACTIVATIONS :: "string list" where
  "ACTIVATIONS = [''ReLU'', ''Softplus'', ''Tanh'', ''SELU'', ''LeakyReLU'', ''PReLU'', ''Sigmoid'']"

definition POOLING :: "string list" where
  "POOLING = [''MaxPool1d'', ''AvgPool1d'']"

text \<open>
  The modules a block owns, by what they are built from: \<^verbatim>\<open>nn.Linear(in_features,
  out_features)\<close>, the activation module (by name), and the pooling module (by name, with
  \<^verbatim>\<open>kernel_size = stride\<close> and \<^verbatim>\<open>ceil_mode=True\<close>).
\<close>

datatype layer = Linear int int | Activation string

definition nn_Linear :: "int \<Rightarrow> int \<Rightarrow> error + layer" where
  \<comment> \<open>allocating a weight matrix with a negative dimension raises\<close>
  "nn_Linear in_features out_features' =
     (if in_features < 0 \<or> out_features' < 0
      then Inl (RuntimeError ''Trying to create tensor with negative dimension'')
      else Inr (Linear in_features out_features'))"

record NHITSBlock =
  dropout_prob :: real
  futr_input_size :: int
  hist_input_size :: int
  stat_input_size :: int
  pooling_layer :: "string \<times> int"
  layers :: "layer list"
  basis :: IdentityBasis

text \<open>
  The loop \<^verbatim>\<open>for layer in mlp_units\<close> of \<^verbatim>\<open>NHITSBlock.__init__\<close>. Each round
  appends a linear layer and the activation, then raises when dropout is requested.
\<close>

fun hidden_layers_loop :: "real \<Rightarrow> string \<Rightarrow> int list list \<Rightarrow> layer list \<Rightarrow> error + layer list" where
  "hidden_layers_loop dropout activ [] hidden_layers = Inr hidden_layers"
| "hidden_layers_loop dropout activ (layer # rest) hidden_layers =
     and_then (getitem layer 0) (\<lambda>a.
     and_then (getitem layer 1) (\<lambda>b.
     and_then (nn_Linear a b) (\<lambda>lin.
       if dropout > 0 then Inl (NotImplementedError ''dropout'')
       else hidden_layers_loop dropout activ rest (hidden_layers @ [lin, Activation activ]))))"

definition NHITSBlock_init ::
  "int \<Rightarrow> int \<Rightarrow> int \<Rightarrow> int list list \<Rightarrow> IdentityBasis \<Rightarrow> int \<Rightarrow> int \<Rightarrow> int \<Rightarrow> int \<Rightarrow> string
     \<Rightarrow> real \<Rightarrow> string \<Rightarrow> error + NHITSBlock" where
  "NHITSBlock_init input_size horizon n_theta mlp_units basis' futr_input_size' hist_input_size'
       stat_input_size' n_pool_kernel_size pooling_mode dropout_prob' activation =
     (if n_pool_kernel_size = 0 then Inl ZeroDivisionError
      else
        let pooled_hist_size = \<lceil>real_of_int input_size / real_of_int n_pool_kernel_size\<rceil>;
            pooled_futr_size = \<lceil>real_of_int (input_size + horizon) / real_of_int n_pool_kernel_size\<rceil>;
            input_size' = pooled_hist_size + hist_input_size' * pooled_hist_size
                          + futr_input_size' * pooled_futr_size + stat_input_size'
        in
        if activation \<notin> set ACTIVATIONS
        then Inl (AssertionError (activation @ '' is not in '' @ py_repr ACTIVATIONS))
        else if pooling_mode \<notin> set POOLING
        then Inl (AssertionError (pooling_mode @ '' is not in '' @ py_repr POOLING))
        else
          and_then (getitem mlp_units 0) (\<lambda>first.
          and_then (getitem first 0) (\<lambda>width.
          and_then (nn_Linear input_size' width) (\<lambda>lin.
          and_then (hidden_layers_loop dropout_prob' activation mlp_units [lin]) (\<lambda>hidden_layers.
          and_then (getitem mlp_units (- 1)) (\<lambda>final.
          and_then (getitem final 1) (\<lambda>width'.
          and_then (nn_Linear width' n_theta) (\<lambda>output_layer.
            Inr \<lparr>dropout_prob = dropout_prob', futr_input_size = futr_input_size',
                 hist_input_size = hist_input_size', stat_input_size = stat_input_size',
                 pooling_layer = (pooling_mode, n_pool_kernel_size),
                 layers = hidden_layers @ [output_layer], basis = basis'\<rparr>))))))))"

subsection \<open>The stack builder\<close>

text \<open>
  The keyword arguments of \<^verbatim>\<open>NHITS.create_stack\<close>, and the one attribute of the loss
  that it reads (\<^verbatim>\<open>self.loss.outputsize_multiplier\<close>).
\<close>

record stack_args =
  arg_h :: int
  arg_input_size :: int
  arg_stack_types :: "string list"
  arg_n_blocks :: "int list"
  arg_mlp_units :: "int list list"
  arg_n_pool_kernel_size :: "int list"
  arg_n_freq_downsample :: "int list"
  arg_pooling_mode :: string
  arg_interpolation_mode :: string
  arg_dropout_prob_theta :: real
  arg_activation :: string
  arg_futr_input_size :: int
  arg_hist_input_size :: int
  arg_stat_input_size :: int
  loss_outputsize_multiplier :: int

text \<open>The body of the inner loop: one block of stack \<open>i\<close>.\<close>

definition n_theta_of :: "stack_args \<Rightarrow> int \<Rightarrow> int" where
  \<comment> \<open>\<^verbatim>\<open>input_size + self.loss.outputsize_multiplier*max(h//n_freq_downsample[i], 1)\<close>\<close>
  "n_theta_of a d = arg_input_size a + loss_outputsize_multiplier a * max (arg_h a div d) 1"

definition create_block :: "stack_args \<Rightarrow> nat \<Rightarrow> error + NHITSBlock" where
  "create_block a i =
     and_then (getitem (arg_stack_types a) (int i)) (\<lambda>stack_type.
     if stack_type \<noteq> ''identity''
     then Inl (AssertionError (''Block type '' @ stack_type @ '' not found!''))
     else
       and_then (getitem (arg_n_freq_downsample a) (int i)) (\<lambda>d.
       if d = 0 then Inl ZeroDivisionError
       else
         and_then (IdentityBasis_init (arg_input_size a) (arg_h a) (arg_interpolation_mode a)
                     (loss_outputsize_multiplier a)) (\<lambda>basis'.
         and_then (getitem (arg_n_pool_kernel_size a) (int i)) (\<lambda>kernel.
           NHITSBlock_init (arg_input_size a) (arg_h a) (n_theta_of a d) (arg_mlp_units a) basis'
             (arg_futr_input_size a) (arg_hist_input_size a) (arg_stat_input_size a)
             kernel (arg_pooling_mode a) (arg_dropout_prob_theta a) (arg_activation a)))))"

text \<open>\<^verbatim>\<open>for block_id in range(n_blocks[i])\<close>, with the rounds left to run.\<close>

fun create_stack_blocks :: "stack_args \<Rightarrow> nat \<Rightarrow> nat \<Rightarrow> NHITSBlock list \<Rightarrow> error + NHITSBlock list" where
  "create_stack_blocks a i 0 block_list = Inr block_list"
| "create_stack_blocks a i (Suc n) block_list =
     and_then (create_block a i) (\<lambda>nbeats_block.
       create_stack_blocks a i n (block_list @ [nbeats_block]))"

text \<open>\<^verbatim>\<open>for i in range(len(stack_types))\<close>, over the indices left to visit.\<close>

fun create_stack_loop :: "stack_args \<Rightarrow> nat list \<Rightarrow> NHITSBlock list \<Rightarrow> error + NHITSBlock list" where
  "create_stack_loop a [] block_list = Inr block_list"
| "create_stack_loop a (i # rest) block_list =
     and_then (getitem (arg_n_blocks a) (int i)) (\<lambda>n.
     and_then (create_stack_blocks a i (nat n) block_list) (\<lambda>block_list'.
       create_stack_loop a rest block_list'))"

definition create_stack :: "stack_args \<Rightarrow> error + NHITSBlock list" where
  "create_stack a = create_stack_loop a [0..<length (arg_stack_types a)] []"

text \<open>The width of the projector's output: the \<^verbatim>\<open>out_features\<close> of its last layer.\<close>

definition theta_width :: "NHITSBlock \<Rightarrow> int option" where
  "theta_width b =
     (case rev (layers b) of
        Linear in_features out_features' # rest \<Rightarrow> Some out_features'
      | _ \<Rightarrow> None)"


subsection \<open>Interpolation of one channel\<close>

text \<open>
  \<^verbatim>\<open>torch.nn.functional.interpolate\<close> along the last axis, as the library documents its
  kernels for \<^verbatim>\<open>align_corners=False\<close>. With \<open>scale = in_width / out_width\<close>:
  \<^item> \<^verbatim>\<open>nearest\<close>: output \<open>j\<close> reads input \<open>min (floor (j * scale)) (in_width - 1)\<close>;
  \<^item> \<^verbatim>\<open>linear\<close>: output \<open>j\<close> sits at \<open>src = max (scale * (j + 1/2) - 1/2) 0\<close> and mixes
    the inputs at \<open>floor src\<close> and the next index (the last one repeated at the border)
    with weights \<open>1 - (src - floor src)\<close> and \<open>src - floor src\<close>.
\<close>

definition upsample_nearest1d :: "real list \<Rightarrow> nat \<Rightarrow> real list" where
  "upsample_nearest1d xs out_width =
     map (\<lambda>j. let scale = real (length xs) / real out_width
              in xs ! min (nat \<lfloor>real j * scale\<rfloor>) (length xs - 1))
         [0..<out_width]"

definition upsample_linear1d :: "real list \<Rightarrow> nat \<Rightarrow> real list" where
  "upsample_linear1d xs out_width =
     map (\<lambda>j. let scale = real (length xs) / real out_width;
                  src = max (scale * (real j + 1 / 2) - 1 / 2) 0;
                  i0 = min (nat \<lfloor>src\<rfloor>) (length xs - 1);
                  i1 = (if i0 < length xs - 1 then i0 + 1 else i0);
                  lambda1 = src - real i0;
                  lambda0 = 1 - lambda1
              in lambda0 * xs ! i0 + lambda1 * xs ! i1)
         [0..<out_width]"

definition F_interpolate :: "real list list list \<Rightarrow> int \<Rightarrow> string \<Rightarrow> error + real list list list" where
  \<comment> \<open>\<^verbatim>\<open>F.interpolate(input, size=out_size, mode=mode)\<close> on \<open>[B, C, W]\<close>\<close>
  "F_interpolate input out_size mode =
     (if out_size \<le> 0 \<or> list_ex (list_ex (\<lambda>r. r = [])) input
      then Inl (RuntimeError ''Input and output sizes should be greater than 0'')
      else if mode = ''nearest''
      then Inr (map (map (\<lambda>r. upsample_nearest1d r (nat out_size))) input)
      else if mode = ''linear''
      then Inr (map (map (\<lambda>r. upsample_linear1d r (nat out_size))) input)
      else Inl (NotImplementedError ''interpolate''))"

subsection \<open>Tensors whose number of axes is only known at run time\<close>

text \<open>
  The cubic branch of the basis adds a tensor into a buffer with a different number of
  axes. There a tensor is its shape and its entries in row-major order.
\<close>

datatype tensor = Tensor (dims: "nat list") (entries: "real list")

definition zeros :: "nat list \<Rightarrow> tensor" where
  "zeros shape = Tensor shape (replicate (prod_list shape) 0)"

fun unravel :: "nat list \<Rightarrow> nat \<Rightarrow> nat list" where
  "unravel [] k = []"
| "unravel (d # ds) k = k div prod_list ds # unravel ds (k mod prod_list ds)"

fun ravel :: "nat list \<Rightarrow> nat list \<Rightarrow> nat" where
  "ravel (d # ds) (c # cs) = c * prod_list ds + ravel ds cs"
| "ravel ds cs = 0"

definition entry :: "tensor \<Rightarrow> nat list \<Rightarrow> real" where
  "entry t coords = entries t ! ravel (dims t) coords"

definition tabulate :: "nat list \<Rightarrow> (nat list \<Rightarrow> real) \<Rightarrow> tensor" where
  "tabulate shape f = Tensor shape (map (\<lambda>k. f (unravel shape k)) [0..<prod_list shape])"

text \<open>Broadcasting aligns two shapes at their last axes; a size 1 stretches.\<close>

fun broadcast_rev :: "nat list \<Rightarrow> nat list \<Rightarrow> nat list option" where
  "broadcast_rev [] ys = Some ys"
| "broadcast_rev xs [] = Some xs"
| "broadcast_rev (x # xs) (y # ys) =
     (if x = y \<or> y = 1 then map_option ((#) x) (broadcast_rev xs ys)
      else if x = 1 then map_option ((#) y) (broadcast_rev xs ys)
      else None)"

definition broadcast_shapes :: "nat list \<Rightarrow> nat list \<Rightarrow> nat list option" where
  "broadcast_shapes s t = map_option rev (broadcast_rev (rev s) (rev t))"

definition inplace_add :: "tensor \<Rightarrow> tensor \<Rightarrow> error + tensor" where
  \<comment> \<open>\<^verbatim>\<open>out += other\<close>: the broadcast of the two shapes must be the shape of \<open>out\<close>\<close>
  "inplace_add out other =
     (case broadcast_shapes (dims out) (dims other) of
        None \<Rightarrow> Inl (RuntimeError ''The size of tensor a must match the size of tensor b'')
      | Some shape \<Rightarrow>
          if shape \<noteq> dims out
          then Inl (RuntimeError ''output shape does not match the broadcast shape'')
          else Inr (tabulate (dims out) (\<lambda>coords.
                 entry out coords
                 + entry other (map (\<lambda>(d, c). if d = 1 then 0 else c)
                               (zip (dims other) (drop (length coords - length (dims other)) coords))))))"

definition slice0 :: "tensor \<Rightarrow> nat \<Rightarrow> nat \<Rightarrow> tensor" where
  \<comment> \<open>\<^verbatim>\<open>t[a:b]\<close>\<close>
  "slice0 t a b =
     (case dims t of
        [] \<Rightarrow> t
      | n # rest \<Rightarrow> Tensor ((min b n - a) # rest)
                     (take ((min b n - a) * prod_list rest) (drop (a * prod_list rest) (entries t))))"

definition set_slice0 :: "tensor \<Rightarrow> nat \<Rightarrow> tensor \<Rightarrow> tensor" where
  \<comment> \<open>the buffer after its rows from \<open>a\<close> on were updated in place\<close>
  "set_slice0 t a part =
     Tensor (dims t)
       (take (a * prod_list (tl (dims t))) (entries t) @ entries part
        @ drop (a * prod_list (tl (dims t)) + length (entries part)) (entries t))"

definition select1 :: "tensor \<Rightarrow> error + tensor" where
  \<comment> \<open>\<^verbatim>\<open>t[:, 0, :, :]\<close>\<close>
  "select1 t =
     (case dims t of
        [n, c, y, x] \<Rightarrow>
          if c = 0 then Inl IndexError
          else Inr (tabulate [n, y, x] (\<lambda>coords. entry t [coords ! 0, 0, coords ! 1, coords ! 2]))
      | _ \<Rightarrow> Inl IndexError)"

definition permute_tensor_021 :: "tensor \<Rightarrow> error + real list list list" where
  \<comment> \<open>\<^verbatim>\<open>t.permute(0, 2, 1)\<close>, read back as a nested list\<close>
  "permute_tensor_021 t =
     (case dims t of
        [b, q, w] \<Rightarrow>
          Inr (map (\<lambda>i. map (\<lambda>j. map (\<lambda>k. entry t [i, k, j]) [0..<q]) [0..<w]) [0..<b])
      | _ \<Rightarrow> Inl (RuntimeError ''permute: the number of axes does not match''))"

text \<open>
  \<^verbatim>\<open>F.interpolate(input, size=out_size, mode='bicubic')\<close> on \<open>[N, C, Y, X]\<close>: an integer
  \<open>out_size\<close> is the size of both spatial axes of the output. Cubic convolution with
  \<open>A = -3/4\<close>, the source position \<open>scale * (j + 1/2) - 1/2\<close>, indices clamped at the border.
\<close>

definition cubic_coefficients :: "real \<Rightarrow> real list" where
  "cubic_coefficients t =
     (let A = - 3 / 4;
          inner = (\<lambda>x. ((A + 2) * x - (A + 3)) * x * x + 1);
          outer = (\<lambda>x. ((A * x - 5 * A) * x + 8 * A) * x - 4 * A)
      in [outer (t + 1), inner t, inner (1 - t), outer (2 - t)])"

definition F_interpolate_bicubic :: "tensor \<Rightarrow> int \<Rightarrow> error + tensor" where
  "F_interpolate_bicubic input out_size =
     (case dims input of
        [n, c, y, x] \<Rightarrow>
          if out_size \<le> 0 \<or> y = 0 \<or> x = 0
          then Inl (RuntimeError ''Input and output sizes should be greater than 0'')
          else Inr (tabulate [n, c, nat out_size, nat out_size] (\<lambda>coords.
            let src_y = real y / real_of_int out_size * (real (coords ! 2) + 1 / 2) - 1 / 2;
                src_x = real x / real_of_int out_size * (real (coords ! 3) + 1 / 2) - 1 / 2;
                wy = cubic_coefficients (src_y - of_int \<lfloor>src_y\<rfloor>);
                wx = cubic_coefficients (src_x - of_int \<lfloor>src_x\<rfloor>);
                clamp = (\<lambda>m v. nat (max 0 (min (int m - 1) v)))
            in (\<Sum>i\<leftarrow>[0..<4]. \<Sum>j\<leftarrow>[0..<4].
                  wy ! i * wx ! j
                  * entry input [coords ! 0, coords ! 1,
                              clamp y (\<lfloor>src_y\<rfloor> - 1 + int i), clamp x (\<lfloor>src_x\<rfloor> - 1 + int j)])))
      | _ \<Rightarrow> Inl (NotImplementedError ''interpolate''))"

subsection \<open>The basis: forward\<close>

definition reshape_knots :: "real list list \<Rightarrow> int \<Rightarrow> error + real list list list" where
  \<comment> \<open>\<^verbatim>\<open>knots.reshape(len(knots), out_features, -1)\<close>\<close>
  "reshape_knots knots q =
     (if knots = [] \<or> q \<le> 0 \<or> list_ex (\<lambda>r. r = [] \<or> int (length r) mod q \<noteq> 0) knots
      then Inl (RuntimeError ''shape is invalid for input size'')
      else Inr (map (\<lambda>r. let n = length r div nat q
                          in map (\<lambda>c. take n (drop (c * n) r)) [0..<nat q]) knots))"

definition permute_021 :: "'a list list list \<Rightarrow> 'a list list list" where
  \<comment> \<open>\<^verbatim>\<open>t.permute(0, 2, 1)\<close>\<close>
  "permute_021 t =
     map (\<lambda>m. case m of [] \<Rightarrow> [] | r # rest \<Rightarrow> map (\<lambda>j. map (\<lambda>row. row ! j) m) [0..<length r]) t"

definition shape3 :: "'a list list list \<Rightarrow> nat list" where
  \<comment> \<open>the sizes of the three axes, read along the first entries\<close>
  "shape3 t =
     [length t,
      (case t of [] \<Rightarrow> 0 | m # ms \<Rightarrow> length m),
      (case t of [] \<Rightarrow> 0 | m # ms \<Rightarrow> (case m of [] \<Rightarrow> 0 | r # rs \<Rightarrow> length r))]"

definition unsqueeze1 :: "real list list list \<Rightarrow> tensor" where
  \<comment> \<open>\<^verbatim>\<open>t[:, None, :, :]\<close>\<close>
  "unsqueeze1 t = Tensor [shape3 t ! 0, 1, shape3 t ! 1, shape3 t ! 2] (concat (map concat t))"

text \<open>\<^verbatim>\<open>for i in range(n_batches)\<close> of the cubic branch, over the rounds left to run.\<close>

fun cubic_loop :: "tensor \<Rightarrow> nat \<Rightarrow> int \<Rightarrow> nat list \<Rightarrow> tensor \<Rightarrow> error + tensor" where
  "cubic_loop knots batch_size out_size [] forecast = Inr forecast"
| "cubic_loop knots batch_size out_size (i # rest) forecast =
     and_then (F_interpolate_bicubic (slice0 knots (i * batch_size) ((i + 1) * batch_size)) out_size)
       (\<lambda>forecast_i.
     and_then (select1 forecast_i) (\<lambda>part.
     and_then (inplace_add (slice0 forecast (i * batch_size) ((i + 1) * batch_size)) part)
       (\<lambda>updated.
       cubic_loop knots batch_size out_size rest (set_slice0 forecast (i * batch_size) updated))))"

definition IdentityBasis_forward ::
  "IdentityBasis \<Rightarrow> real list list \<Rightarrow> error + (real list list \<times> real list list list)" where
  "IdentityBasis_forward self theta =
     (let backcast = map (\<lambda>row. slice_to row (backcast_size self)) theta;
          knots = map (\<lambda>row. slice_from row (backcast_size self)) theta
      in
      and_then (reshape_knots knots (out_features self)) (\<lambda>knots.
        if interpolation_mode self \<in> set [''nearest'', ''linear'']
        then
          and_then (F_interpolate knots (forecast_size self) (interpolation_mode self)) (\<lambda>forecast.
            Inr (backcast, permute_021 forecast))
        else if sublist ''cubic'' (interpolation_mode self)
        then
          let batch_size = length backcast;
              knots4 = unsqueeze1 knots
          in
          if forecast_size self < 0
          then Inl (RuntimeError ''Trying to create tensor with negative dimension'')
          else if batch_size = 0 then Inl ZeroDivisionError
          else
            let forecast = zeros [length knots, nat (forecast_size self)];
                n_batches = nat \<lceil>real (length knots) / real batch_size\<rceil>
            in
            and_then (cubic_loop knots4 batch_size (forecast_size self) [0..<n_batches] forecast)
              (\<lambda>forecast.
            and_then (permute_tensor_021 forecast) (\<lambda>forecast. Inr (backcast, forecast)))
        else Inl UnboundLocalError))"


subsection \<open>The block: forward\<close>

text \<open>
  The modules of a block as the functions they compute. The pooling module acts on each
  channel on its own; \<^verbatim>\<open>nn.Sequential(*layers)\<close> maps the feature rows \<open>[B, F]\<close> to the
  rows of theta and raises when \<open>F\<close> is not what its first layer expects.
\<close>

record modules =
  pooling_fn :: "real list \<Rightarrow> real list"
  layers_fn :: "real list list \<Rightarrow> error + real list list"

definition cat1 :: "real list list \<Rightarrow> real list list \<Rightarrow> error + real list list" where
  \<comment> \<open>\<^verbatim>\<open>torch.cat((a, b), dim=1)\<close>\<close>
  "cat1 a b =
     (if length a = length b then Inr (map (\<lambda>(x, y). x @ y) (zip a b))
      else Inl (RuntimeError ''Sizes of tensors must match except in dimension 1''))"

definition reshape_rows :: "nat \<Rightarrow> real list \<Rightarrow> error + real list list" where
  \<comment> \<open>\<^verbatim>\<open>t.reshape(batch_size, -1)\<close>, on the entries of \<open>t\<close> in row-major order\<close>
  "reshape_rows batch_size flat =
     (if batch_size = 0 \<or> flat = [] \<or> length flat mod batch_size \<noteq> 0
      then Inl (RuntimeError ''shape is invalid for input size'')
      else Inr (map (\<lambda>b. take (length flat div batch_size)
                             (drop (b * (length flat div batch_size)) flat))
                   [0..<batch_size]))"

definition pool_exog :: "modules \<Rightarrow> real list list list \<Rightarrow> real list list list" where
  \<comment> \<open>\<open>[B, L, C]\<close> to \<open>[B, C, L]\<close>, each channel pooled, and to \<open>[B, L', C]\<close> again\<close>
  "pool_exog m x = map (\<lambda>e. transpose (map (pooling_fn m) (transpose e))) x"

definition NHITSBlock_forward ::
  "NHITSBlock \<Rightarrow> modules \<Rightarrow> real list list \<Rightarrow> real list list list option
     \<Rightarrow> real list list list option \<Rightarrow> real list list option
     \<Rightarrow> error + (real list list \<times> real list list list)" where
  "NHITSBlock_forward self m insample_y' futr_exog' hist_exog' stat_exog' =
     (let pooled = map (pooling_fn m) insample_y';
          batch_size = length pooled
      in
      and_then
        (if hist_input_size self > 0
         then (case hist_exog' of None \<Rightarrow> Inl AttributeError
               | Some x \<Rightarrow>
                   and_then (reshape_rows batch_size (concat (map concat (pool_exog m x))))
                     (cat1 pooled))
         else Inr pooled) (\<lambda>with_hist.
      and_then
        (if futr_input_size self > 0
         then (case futr_exog' of None \<Rightarrow> Inl AttributeError
               | Some x \<Rightarrow>
                   and_then (reshape_rows batch_size (concat (map concat (pool_exog m x))))
                     (cat1 with_hist))
         else Inr with_hist) (\<lambda>with_futr.
      and_then
        (if stat_input_size self > 0
         then (case stat_exog' of None \<Rightarrow> Inl AttributeError
               | Some x \<Rightarrow> and_then (reshape_rows batch_size (concat x)) (cat1 with_futr))
         else Inr with_futr) (\<lambda>features.
      and_then (layers_fn m features) (\<lambda>theta.
        IdentityBasis_forward (basis self) theta)))))"

subsection \<open>The model: forward\<close>

text \<open>
  Elementwise arithmetic broadcasts: along an axis the sizes agree or one of them is 1.
  Entries are exact reals here; the infinities and NaN of the float format are taken up
  for the residual update in the subsection on floating point below.
\<close>

definition broadcast :: "('a \<Rightarrow> 'b \<Rightarrow> error + 'c) \<Rightarrow> 'a list \<Rightarrow> 'b list \<Rightarrow> error + 'c list" where
  "broadcast f xs ys =
     (if length xs = length ys then sequence (map (\<lambda>(x, y). f x y) (zip xs ys))
      else if length xs = 1 then sequence (map (\<lambda>y. f (hd xs) y) ys)
      else if length ys = 1 then sequence (map (\<lambda>x. f x (hd ys)) xs)
      else Inl (RuntimeError ''The size of tensor a must match the size of tensor b''))"

definition sub2 :: "real list list \<Rightarrow> real list list \<Rightarrow> error + real list list" where
  "sub2 = broadcast (broadcast (\<lambda>x y. Inr (x - y)))"

definition mul2 :: "real list list \<Rightarrow> real list list \<Rightarrow> error + real list list" where
  "mul2 = broadcast (broadcast (\<lambda>x y. Inr (x * y)))"

definition add3 :: "real list list list \<Rightarrow> real list list list \<Rightarrow> error + real list list list" where
  "add3 = broadcast (broadcast (broadcast (\<lambda>x y. Inr (x + y))))"

definition repeat1 :: "real list list list \<Rightarrow> int \<Rightarrow> error + real list list list" where
  \<comment> \<open>\<^verbatim>\<open>t.repeat(1, n, 1)\<close>\<close>
  "repeat1 t n =
     (if n < 0 then Inl (RuntimeError ''Trying to create tensor with negative dimension'')
      else Inr (map (\<lambda>e. concat (replicate (nat n) e)) t))"

definition torch_stack :: "real list list list list \<Rightarrow> error + real list list list list" where
  "torch_stack ts =
     (case ts of
        [] \<Rightarrow> Inl (RuntimeError ''stack expects a non-empty TensorList'')
      | t # rest \<Rightarrow>
          if list_all (\<lambda>u. shape3 u = shape3 t) rest then Inr ts
          else Inl (RuntimeError ''stack expects each tensor to be equal size''))"

definition permute_1023 :: "'a list list \<Rightarrow> 'a list list" where
  \<comment> \<open>\<^verbatim>\<open>t.permute(1, 0, 2, 3)\<close>: the first two axes change places\<close>
  "permute_1023 t = (case t of [] \<Rightarrow> [] | u # us \<Rightarrow> map (\<lambda>b. map (\<lambda>v. v ! b) t) [0..<length u])"

record windows_batch =
  insample_y :: "real list list"
  insample_mask :: "real list list"
  futr_exog :: "real list list list option"
  hist_exog :: "real list list list option"
  stat_exog :: "real list list option"

text \<open>
  The attributes \<^verbatim>\<open>NHITS.forward\<close> reads. \<^verbatim>\<open>self.loss.domain_map\<close> belongs to the
  loss; the model only applies it.
\<close>

record 'b NHITS =
  h :: int
  blocks :: "(NHITSBlock \<times> modules) list"
  decompose_forecast :: bool
  domain_map :: "real list list list \<Rightarrow> 'b"

datatype 'b forward_output =
    Forecast 'b
  | Decomposition "real list list list list"
  | Decomposition_univariate "real list list list"

definition squeeze_last :: "real list list list list \<Rightarrow> 'b forward_output" where
  \<comment> \<open>\<^verbatim>\<open>t.squeeze(-1)\<close>: the last axis goes when its size is 1\<close>
  "squeeze_last t =
     (if (case t of [] \<Rightarrow> 0 | u # us \<Rightarrow> shape3 u ! 2) = 1
      then Decomposition_univariate (map (map (map hd)) t)
      else Decomposition t)"

type_synonym loop_state = "real list list \<times> real list list list \<times> real list list list list"

text \<open>
  \<^verbatim>\<open>for i, block in enumerate(self.blocks)\<close>, over the blocks left to run; the state is
  \<open>(residuals, forecast, block_forecasts)\<close>.
\<close>

fun forward_loop ::
  "bool \<Rightarrow> (NHITSBlock \<times> modules) list \<Rightarrow> windows_batch \<Rightarrow> real list list \<Rightarrow> loop_state
     \<Rightarrow> error + loop_state" where
  "forward_loop decompose [] w insample_mask' state = Inr state"
| "forward_loop decompose ((block, m) # rest) w insample_mask' (residuals, forecast, block_forecasts) =
     and_then (NHITSBlock_forward block m residuals (futr_exog w) (hist_exog w) (stat_exog w))
       (\<lambda>(backcast, block_forecast).
     and_then (sub2 residuals backcast) (\<lambda>difference.
     and_then (mul2 difference insample_mask') (\<lambda>residuals'.
     and_then (add3 forecast block_forecast) (\<lambda>forecast'.
       forward_loop decompose rest w insample_mask'
         (residuals', forecast',
          if decompose then block_forecasts @ [block_forecast] else block_forecasts)))))"

definition initial_state :: "'b NHITS \<Rightarrow> windows_batch \<Rightarrow> error + loop_state" where
  \<comment> \<open>the three assignments before the loop\<close>
  "initial_state self w =
     (let residuals = map rev (insample_y w);
          forecast = map (\<lambda>row. map (\<lambda>v. [v]) (slice_from row (- 1))) (insample_y w)
      in and_then (repeat1 forecast (h self)) (\<lambda>level. Inr (residuals, forecast, [level])))"

definition NHITS_forward :: "'b NHITS \<Rightarrow> windows_batch \<Rightarrow> error + 'b forward_output" where
  "NHITS_forward self w =
     and_then (initial_state self w) (\<lambda>state.
     and_then (forward_loop (decompose_forecast self) (blocks self) w
                 (map rev (insample_mask w)) state)
       (\<lambda>(residuals, forecast, block_forecasts).
       let mapped = domain_map self forecast in
       if decompose_forecast self
       then and_then (torch_stack block_forecasts) (\<lambda>stacked.
              Inr (squeeze_last (permute_1023 stacked)))
       else Inr (Forecast mapped)))"


subsection \<open>The residual update in floating point\<close>

text \<open>
  The tensors of \<^verbatim>\<open>NHITS.forward\<close> hold floats, which besides the finite numbers have
  two infinities and NaN. A value is finite, an infinity with its sign (\<open>True\<close> for
  \<open>+inf\<close>) or NaN. The two zeros of the format are the one value \<open>Finite 0\<close> (they compare
  equal). A finite result is kept exact unless it overflows: an exact result of
  magnitude \<open>2^128 - 2^103\<close> or more rounds to an infinity in \<^verbatim>\<open>float32\<close>, the default
  dtype of torch.
\<close>

datatype float_value = Finite real | Infinity bool | NaN

definition round_float32 :: "real \<Rightarrow> float_value" where
  "round_float32 r = (if 2 ^ 128 - 2 ^ 103 \<le> \<bar>r\<bar> then Infinity (0 < r) else Finite r)"

fun is_finite :: "float_value \<Rightarrow> bool" where
  "is_finite (Finite a) = True"
| "is_finite x = False"

text \<open>
  IEEE 754 arithmetic on these values: NaN spreads, \<open>inf - inf\<close> is NaN, and an infinity
  times zero is NaN.
\<close>

fun float_add :: "float_value \<Rightarrow> float_value \<Rightarrow> float_value" where
  "float_add (Finite a) (Finite b) = round_float32 (a + b)"
| "float_add (Finite a) (Infinity t) = Infinity t"
| "float_add (Infinity s) (Finite b) = Infinity s"
| "float_add (Infinity s) (Infinity t) = (if s = t then Infinity s else NaN)"
| "float_add x y = NaN"

fun float_sub :: "float_value \<Rightarrow> float_value \<Rightarrow> float_value" where
  "float_sub (Finite a) (Finite b) = round_float32 (a - b)"
| "float_sub (Finite a) (Infinity t) = Infinity (\<not> t)"
| "float_sub (Infinity s) (Finite b) = Infinity s"
| "float_sub (Infinity s) (Infinity t) = (if s = t then NaN else Infinity s)"
| "float_sub x y = NaN"

fun float_mul :: "float_value \<Rightarrow> float_value \<Rightarrow> float_value" where
  "float_mul (Finite a) (Finite b) = round_float32 (a * b)"
| "float_mul (Finite a) (Infinity t) = (if a = 0 then NaN else Infinity (t = (0 < a)))"
| "float_mul (Infinity s) (Finite b) = (if b = 0 then NaN else Infinity (s = (0 < b)))"
| "float_mul (Infinity s) (Infinity t) = Infinity (s = t)"
| "float_mul x y = NaN"

definition sub2_float ::
  "float_value list list \<Rightarrow> float_value list list \<Rightarrow> error + float_value list list" where
  "sub2_float = broadcast (broadcast (\<lambda>x y. Inr (float_sub x y)))"

definition mul2_float ::
  "float_value list list \<Rightarrow> float_value list list \<Rightarrow> error + float_value list list" where
  "mul2_float = broadcast (broadcast (\<lambda>x y. Inr (float_mul x y)))"

definition add3_float ::
  "float_value list list list \<Rightarrow> float_value list list list
     \<Rightarrow> error + float_value list list list" where
  "add3_float = broadcast (broadcast (broadcast (\<lambda>x y. Inr (float_add x y))))"

text \<open>
  The loop of \<^verbatim>\<open>NHITS.forward\<close> over such tensors. What a block returns for a residual,
  \<^verbatim>\<open>block(insample_y=residuals, futr_exog=..., hist_exog=..., stat_exog=...)\<close>, is a
  parameter: a backcast and a block forecast of any values, or an error. The exogenous
  inputs do not change during the loop and are part of that parameter.
\<close>

type_synonym float_block =
  "float_value list list \<Rightarrow> error + float_value list list \<times> float_value list list list"

type_synonym float_state =
  "float_value list list \<times> float_value list list list \<times> float_value list list list list"

fun forward_loop_float ::
  "bool \<Rightarrow> float_block list \<Rightarrow> float_value list list \<Rightarrow> float_state \<Rightarrow> error + float_state" where
  "forward_loop_float decompose [] insample_mask' state = Inr state"
| "forward_loop_float decompose (block # rest) insample_mask' (residuals, forecast, block_forecasts) =
     and_then (block residuals) (\<lambda>(backcast, block_forecast).
     and_then (sub2_float residuals backcast) (\<lambda>difference.
     and_then (mul2_float difference insample_mask') (\<lambda>residuals'.
     and_then (add3_float forecast block_forecast) (\<lambda>forecast'.
       forward_loop_float decompose rest insample_mask'
         (residuals', forecast',
          if decompose then block_forecasts @ [block_forecast] else block_forecasts)))))"

definition initial_state_float :: "int \<Rightarrow> float_value list list \<Rightarrow> error + float_state" where
  \<comment> \<open>the three assignments before the loop, for the horizon \<^verbatim>\<open>self.h\<close> and \<^verbatim>\<open>insample_y\<close>\<close>
  "initial_state_float horizon y =
     (let residuals = map rev y;
          forecast = map (\<lambda>row. map (\<lambda>v. [v]) (slice_from row (- 1))) y
      in if horizon < 0 then Inl (RuntimeError ''Trying to create tensor with negative dimension'')
         else Inr (residuals, forecast,
                   [map (\<lambda>e. concat (replicate (nat horizon) e)) forecast]))"

subsection \<open>Notions for the statements\<close>

text \<open>Entry \<open>i\<close> of an axis as broadcasting reads it: an axis of size 1 is stretched.\<close>

definition stretch :: "'a list \<Rightarrow> nat \<Rightarrow> 'a" where
  "stretch xs i = (if length xs = 1 then xs ! 0 else xs ! i)"

text \<open>
  At every position where the mask is zero, the residual is zero if the difference
  \<open>residual - backcast\<close> there is finite, and NaN if it is not.
\<close>

definition masked_entries ::
  "float_value list list \<Rightarrow> float_value list list \<Rightarrow> float_value list list \<Rightarrow> bool" where
  "masked_entries insample_mask' difference residuals =
     list_all (\<lambda>b. list_all (\<lambda>j. stretch (stretch insample_mask' b) j = Finite 0
                      \<longrightarrow> residuals ! b ! j
                            = (if is_finite (stretch (stretch difference b) j) then Finite 0
                               else NaN))
                       [0..<length (residuals ! b)])
              [0..<length residuals]"

text \<open>The tensor \<open>[B, H, Q]\<close> with entry \<open>f b t q\<close> at \<open>(b, t, q)\<close>, and having that shape.\<close>

definition table3 :: "nat \<Rightarrow> nat \<Rightarrow> nat \<Rightarrow> (nat \<Rightarrow> nat \<Rightarrow> nat \<Rightarrow> real) \<Rightarrow> real list list list" where
  "table3 B H Q f = map (\<lambda>b. map (\<lambda>t. map (\<lambda>q. f b t q) [0..<Q]) [0..<H]) [0..<B]"

definition has_shape3 :: "nat \<Rightarrow> nat \<Rightarrow> nat \<Rightarrow> 'a list list list \<Rightarrow> bool" where
  "has_shape3 B H Q t \<longleftrightarrow>
     length t = B \<and> list_all (\<lambda>m. length m = H \<and> list_all (\<lambda>r. length r = Q) m) t"

subsection \<open>Concrete configurations\<close>

text \<open>
  One stack with one block, lookback 4, horizon 2, pooling kernel 2 and a single output
  per step, with the frequency-downsample ratio \<open>d\<close> left open.
\<close>

definition small_args :: "int \<Rightarrow> stack_args" where
  "small_args d =
     \<lparr>arg_h = 2, arg_input_size = 4, arg_stack_types = [''identity''], arg_n_blocks = [1],
      arg_mlp_units = [[8, 8]], arg_n_pool_kernel_size = [2], arg_n_freq_downsample = [d],
      arg_pooling_mode = ''MaxPool1d'', arg_interpolation_mode = ''linear'',
      arg_dropout_prob_theta = 0, arg_activation = ''ReLU'', arg_futr_input_size = 0,
      arg_hist_input_size = 0, arg_stat_input_size = 0, loss_outputsize_multiplier = 1\<rparr>"

text \<open>
  The model of the notebook's own test: the defaults of \<^verbatim>\<open>NHITS.__init__\<close> with
  \<^verbatim>\<open>h=24, input_size=48, n_freq_downsample=[12,4,1]\<close>.
\<close>

definition notebook_args :: stack_args where
  "notebook_args =
     \<lparr>arg_h = 24, arg_input_size = 48,
      arg_stack_types = [''identity'', ''identity'', ''identity''], arg_n_blocks = [1, 1, 1],
      arg_mlp_units = [[512, 512], [512, 512], [512, 512]],
      arg_n_pool_kernel_size = [2, 2, 1], arg_n_freq_downsample = [12, 4, 1],
      arg_pooling_mode = ''MaxPool1d'', arg_interpolation_mode = ''linear'',
      arg_dropout_prob_theta = 0, arg_activation = ''ReLU'', arg_futr_input_size = 0,
      arg_hist_input_size = 0, arg_stat_input_size = 0, loss_outputsize_multiplier = 1\<rparr>"


text \<open>
  A stack of another type: one that has no block, and one that has a block and stands
  first or second.
\<close>

definition empty_trend_args :: stack_args where
  "empty_trend_args = (small_args 1)\<lparr>arg_stack_types := [''trend''], arg_n_blocks := [0]\<rparr>"

definition trend_first_args :: stack_args where
  "trend_first_args =
     (small_args 1)\<lparr>arg_stack_types := [''trend'', ''identity''], arg_n_blocks := [1, 1],
                     arg_n_pool_kernel_size := [2, 2], arg_n_freq_downsample := [1, 1]\<rparr>"

definition trend_args :: stack_args where
  "trend_args =
     (small_args 1)\<lparr>arg_stack_types := [''identity'', ''trend''], arg_n_blocks := [1, 1],
                     arg_n_pool_kernel_size := [2, 2], arg_n_freq_downsample := [1, 1]\<rparr>"

text \<open>The basis of the small configuration, by interpolation mode and outputs per step.\<close>

definition small_basis :: "string \<Rightarrow> int \<Rightarrow> IdentityBasis" where
  "small_basis mode q =
     \<lparr>forecast_size = 2, backcast_size = 4, interpolation_mode = mode, out_features = q\<rparr>"

text \<open>
  A model over the small configuration with \<open>q\<close> outputs per step and \<open>n\<close> blocks. Its
  pooling takes the maximum of each pair (kernel 2, the last window cut short); its
  projector accepts the two pooled values \<open>[u, v]\<close> and returns the backcast
  \<open>[u, v, 0, 1]\<close> followed by the knots \<open>[u + v, 2]\<close> of each output. The loss maps the
  forecast to itself.
\<close>

fun maxpool2 :: "real list \<Rightarrow> real list" where
  "maxpool2 (x # y # rest) = max x y # maxpool2 rest"
| "maxpool2 xs = xs"

definition example_modules :: "nat \<Rightarrow> modules" where
  "example_modules q =
     \<lparr>pooling_fn = maxpool2,
      layers_fn = (\<lambda>x. if list_all (\<lambda>r. length r = 2) x
                       then Inr (map (\<lambda>r. [r ! 0, r ! 1, 0, 1]
                                           @ concat (replicate q [r ! 0 + r ! 1, 2])) x)
                       else Inl (RuntimeError ''mat1 and mat2 shapes cannot be multiplied''))\<rparr>"

definition example_block :: "int \<Rightarrow> NHITSBlock" where
  "example_block q =
     \<lparr>dropout_prob = 0, futr_input_size = 0, hist_input_size = 0, stat_input_size = 0,
      pooling_layer = (''MaxPool1d'', 2),
      layers = [Linear 2 8, Linear 8 8, Activation ''ReLU'', Linear 8 (4 + 2 * q)],
      basis = small_basis ''linear'' q\<rparr>"

definition example_model :: "int \<Rightarrow> nat \<Rightarrow> bool \<Rightarrow> (real list list list) NHITS" where
  "example_model q n decompose =
     \<lparr>h = 2, blocks = replicate n (example_block q, example_modules (nat q)),
      decompose_forecast = decompose, domain_map = (\<lambda>forecast. forecast)\<rparr>"

text \<open>Two windows of four values; the oldest value of the first window is masked.\<close>

definition example_batch :: windows_batch where
  "example_batch =
     \<lparr>insample_y = [[1, 2, 3, 4], [5, 6, 7, 8]], insample_mask = [[0, 1, 1, 1], [1, 1, 1, 1]],
      futr_exog = None, hist_exog = None, stat_exog = None\<rparr>"

text \<open>
  Two windows of three observations whose oldest one is not available (mask 0); in the
  second window that observation is NaN. A block that returns the constant \<open>c\<close> as its
  backcast and as its forecast of one step.
\<close>

definition observed :: "float_value list list" where
  "observed = [[Finite 2, Finite 7, Finite 5], [NaN, Finite 1, Finite 3]]"

definition available :: "float_value list list" where
  "available = [[Finite 0, Finite 1, Finite 1], [Finite 0, Finite 1, Finite 1]]"

definition constant_block :: "real \<Rightarrow> float_block" where
  "constant_block c residuals =
     Inr (map (map (\<lambda>v. Finite c)) residuals, map (\<lambda>row. [[Finite c]]) residuals)"

section \<open>Properties\<close>

subsection \<open>Results and lists\<close>

lemma and_then_Inl [simp]: "and_then (Inl e) f = Inl e"
  by (simp add: and_then_def)

lemma and_then_Inr [simp]: "and_then (Inr v) f = f v"
  by (simp add: and_then_def)

lemma and_then_eq_Inr: "and_then r f = Inr y \<longleftrightarrow> (\<exists>v. r = Inr v \<and> f v = Inr y)"
  by (cases r) simp_all

lemma getitem_nat: "getitem xs (int i) = (if i < length xs then Inr (xs ! i) else Inl IndexError)"
  by (simp add: getitem_def)

lemma getitem_nat_Inr: "getitem xs (int i) = Inr v \<longleftrightarrow> i < length xs \<and> v = xs ! i"
  by (auto simp: getitem_nat)

lemma slice_to_nat [simp]: "slice_to xs (int n) = take n xs"
  by (simp add: slice_to_def)

lemma slice_from_nat [simp]: "slice_from xs (int n) = drop n xs"
  by (simp add: slice_from_def)

subsection \<open>The stack builder\<close>

lemma IdentityBasis_init_Inr:
  "IdentityBasis_init L H m q = Inr b \<Longrightarrow>
     backcast_size b = L \<and> forecast_size b = H \<and> interpolation_mode b = m \<and> out_features b = q"
  by (auto simp: IdentityBasis_init_def split: if_splits)

lemma NHITSBlock_init_Inr:
  assumes "NHITSBlock_init L H nt units bs fs hs ss k pm dp act = Inr b"
  shows "theta_width b = Some nt \<and> basis b = bs"
  using assms
  by (auto simp: NHITSBlock_init_def Let_def and_then_eq_Inr nn_Linear_def theta_width_def
      split: if_splits)

lemma create_block_Inr:
  assumes "create_block a i = Inr b"
  shows "i < length (arg_stack_types a) \<and> arg_stack_types a ! i = ''identity''
       \<and> i < length (arg_n_freq_downsample a) \<and> i < length (arg_n_pool_kernel_size a)
       \<and> theta_width b = Some (n_theta_of a (arg_n_freq_downsample a ! i))
       \<and> backcast_size (basis b) = arg_input_size a
       \<and> forecast_size (basis b) = arg_h a
       \<and> out_features (basis b) = loss_outputsize_multiplier a"
  using assms
  by (auto simp: create_block_def and_then_eq_Inr getitem_nat_Inr
      split: if_splits dest!: NHITSBlock_init_Inr IdentityBasis_init_Inr)

lemma create_stack_blocks_Inr:
  "create_stack_blocks a i n bl = Inr bl' \<Longrightarrow>
     (n = 0 \<and> bl' = bl) \<or> (\<exists>b. create_block a i = Inr b \<and> bl' = bl @ replicate n b)"
proof (induction n arbitrary: bl)
  case 0
  then show ?case by simp
next
  case (Suc n)
  then obtain b where b: "create_block a i = Inr b"
    and rest: "create_stack_blocks a i n (bl @ [b]) = Inr bl'"
    by (auto simp: and_then_eq_Inr)
  from Suc.IH [OF rest] b show ?case
    by (auto simp: replicate_app_Cons_same)
qed

lemma create_stack_loop_Inr:
  "create_stack_loop a idx bl = Inr bl' \<Longrightarrow>
     (\<forall>i\<in>set idx. i < length (arg_n_blocks a)
         \<and> (0 < arg_n_blocks a ! i \<longrightarrow> (\<exists>b. create_block a i = Inr b)))
     \<and> map theta_width bl' = map theta_width bl @
           concat (map (\<lambda>i. replicate (nat (arg_n_blocks a ! i))
                              (Some (n_theta_of a (arg_n_freq_downsample a ! i)))) idx)
     \<and> (\<forall>b\<in>set bl'. b \<in> set bl \<or> (\<exists>i\<in>set idx. create_block a i = Inr b))"
proof (induction idx arbitrary: bl)
  case Nil
  then show ?case by simp
next
  case (Cons i rest)
  from Cons.prems obtain mid where i: "i < length (arg_n_blocks a)"
    and inner: "create_stack_blocks a i (nat (arg_n_blocks a ! i)) bl = Inr mid"
    and outer: "create_stack_loop a rest mid = Inr bl'"
    by (auto simp: and_then_eq_Inr getitem_nat_Inr)
  note IH = Cons.IH [OF outer]
  from create_stack_blocks_Inr [OF inner] show ?case
  proof
    assume "nat (arg_n_blocks a ! i) = 0 \<and> mid = bl"
    with IH i show ?thesis by auto
  next
    assume "\<exists>b. create_block a i = Inr b \<and> mid = bl @ replicate (nat (arg_n_blocks a ! i)) b"
    then obtain b where b: "create_block a i = Inr b"
      and mid: "mid = bl @ replicate (nat (arg_n_blocks a ! i)) b" by blast
    from create_block_Inr [OF b]
    have w: "theta_width b = Some (n_theta_of a (arg_n_freq_downsample a ! i))" by simp
    from IH i b mid w show ?thesis
      by (auto simp: map_replicate)
  qed
qed

lemma create_stack_loop_append:
  "create_stack_loop a (xs @ ys) bl = and_then (create_stack_loop a xs bl) (create_stack_loop a ys)"
proof (induction xs arbitrary: bl)
  case Nil
  then show ?case by simp
next
  case (Cons i xs)
  show ?case
  proof (cases "getitem (arg_n_blocks a) (int i)")
    case (Inl e)
    then show ?thesis by simp
  next
    case (Inr n)
    then show ?thesis
      by (cases "create_stack_blocks a i (nat n) bl") (simp_all add: Cons.IH)
  qed
qed

lemma create_block_not_identity:
  assumes "i < length (arg_stack_types a)" and "arg_stack_types a ! i \<noteq> ''identity''"
  shows "create_block a i = Inl (AssertionError (''Block type '' @ arg_stack_types a ! i @ '' not found!''))"
  using assms by (simp add: create_block_def getitem_nat)

text \<open>
  Claim C9. Whenever the stack builder succeeds, the blocks it returns are, stack by stack,
  \<open>n_blocks[i]\<close> blocks whose projector ends in a layer of width
  \<open>input_size + outputsize_multiplier * max (h div n_freq_downsample[i]) 1\<close>; the basis of every
  block has \<open>backcast_size = input_size\<close>, \<open>forecast_size = h\<close> and
  \<open>out_features = outputsize_multiplier\<close>.
\<close>

theorem n_theta_formula:
  assumes "create_stack a = Inr block_list"
  shows "map theta_width block_list =
           concat (map (\<lambda>i. replicate (nat (arg_n_blocks a ! i))
                      (Some (arg_input_size a + loss_outputsize_multiplier a
                               * max (arg_h a div arg_n_freq_downsample a ! i) 1)))
                    [0..<length (arg_stack_types a)])
         \<and> (\<forall>b\<in>set block_list. backcast_size (basis b) = arg_input_size a
                \<and> forecast_size (basis b) = arg_h a
                \<and> out_features (basis b) = loss_outputsize_multiplier a)"
proof -
  from assms have loop: "create_stack_loop a [0..<length (arg_stack_types a)] [] = Inr block_list"
    by (simp add: create_stack_def)
  from create_stack_loop_Inr [OF loop] show ?thesis
    by (auto simp: n_theta_of_def dest: create_block_Inr)
qed

text \<open>The notebook's model: three blocks, of widths 48 + 2, 48 + 6 and 48 + 24.\<close>

theorem n_theta_formula_witness:
  "\<not> isl (create_stack notebook_args)
   \<and> map theta_width (projr (create_stack notebook_args)) = [Some 50, Some 54, Some 72]"
proof -
  have ok: "\<not> isl (create_stack notebook_args)" by code_simp
  then have "create_stack notebook_args = Inr (projr (create_stack notebook_args))" by simp
  from n_theta_formula [OF this] ok show ?thesis
    by (simp add: notebook_args_def upt_rec)
qed




text \<open>
  Claim C6, as the code has it. The assertion on the stack type stands inside the loop
  over the blocks of the stack. A stack of another type that has at least one block makes
  construction fail; when the stacks before it were built, the error is the assertion's,
  and its message holds the type of the stack, not its index.
\<close>

theorem non_identity_stack_rejected:
  assumes "i < length (arg_stack_types a)" and "arg_stack_types a ! i \<noteq> ''identity''"
    and "i < length (arg_n_blocks a)" and "0 < arg_n_blocks a ! i"
  shows "isl (create_stack a)
       \<and> (\<forall>built. create_stack_loop a [0..<i] [] = Inr built \<longrightarrow>
            create_stack a =
              Inl (AssertionError (''Block type '' @ arg_stack_types a ! i @ '' not found!'')))"
proof
  show "isl (create_stack a)"
  proof (cases "create_stack a")
    case (Inl e)
    then show ?thesis by simp
  next
    case (Inr block_list)
    then have "create_stack_loop a [0..<length (arg_stack_types a)] [] = Inr block_list"
      by (simp add: create_stack_def)
    from create_stack_loop_Inr [OF this] assms obtain b where "create_block a i = Inr b"
      by auto
    with create_block_not_identity [OF assms(1,2)] show ?thesis by simp
  qed
next
  show "\<forall>built. create_stack_loop a [0..<i] [] = Inr built \<longrightarrow>
          create_stack a =
            Inl (AssertionError (''Block type '' @ arg_stack_types a ! i @ '' not found!''))"
  proof (intro allI impI)
    fix built
    assume built: "create_stack_loop a [0..<i] [] = Inr built"
    obtain m where m: "nat (arg_n_blocks a ! i) = Suc m"
      using assms(4) by (cases "nat (arg_n_blocks a ! i)") auto
    have split: "[0..<length (arg_stack_types a)] = [0..<i] @ i # [Suc i..<length (arg_stack_types a)]"
      using assms(1) upt_add_eq_append [of 0 i "length (arg_stack_types a) - i"]
      by (simp add: upt_conv_Cons)
    show "create_stack a =
            Inl (AssertionError (''Block type '' @ arg_stack_types a ! i @ '' not found!''))"
      unfolding create_stack_def split create_stack_loop_append built
      by (simp add: getitem_nat assms(3) m create_block_not_identity [OF assms(1,2)])
  qed
qed

text \<open>An identity stack followed by a trend stack, one block each.\<close>

theorem non_identity_stack_rejected_witness:
  "arg_stack_types trend_args ! 1 \<noteq> ''identity''
   \<and> isl (create_stack trend_args)
   \<and> create_stack trend_args = Inl (AssertionError ''Block type trend not found!'')"
proof -
  have i: "1 < length (arg_stack_types trend_args)" "arg_stack_types trend_args ! 1 \<noteq> ''identity''"
    "1 < length (arg_n_blocks trend_args)" "0 < arg_n_blocks trend_args ! 1"
    by (simp_all add: trend_args_def small_args_def)
  have "\<not> isl (create_stack_loop trend_args [0..<1] [])" by code_simp
  then have built: "create_stack_loop trend_args [0..<1] [] = Inr (projr (create_stack_loop trend_args [0..<1] []))"
    by simp
  from non_identity_stack_rejected [OF i]
  have fails: "isl (create_stack trend_args)"
    and exact: "\<forall>built. create_stack_loop trend_args [0..<1] [] = Inr built \<longrightarrow>
      create_stack trend_args
        = Inl (AssertionError (''Block type '' @ arg_stack_types trend_args ! 1 @ '' not found!''))"
    by blast+
  from exact built
  have "create_stack trend_args
      = Inl (AssertionError (''Block type '' @ arg_stack_types trend_args ! 1 @ '' not found!''))"
    by blast
  moreover have "arg_stack_types trend_args ! 1 = ''trend''"
    by (simp add: trend_args_def small_args_def)
  ultimately show ?thesis using fails by simp
qed

text \<open>
  Against claim C6 as stated: the error is the same whether the offending stack is the
  first or the second, so it does not identify the index; and a stack of another type
  with no block is never looked at.
\<close>

theorem empty_non_identity_stack_accepted:
  "arg_stack_types trend_first_args ! 0 = ''trend''
   \<and> create_stack trend_first_args = Inl (AssertionError ''Block type trend not found!'')
   \<and> arg_stack_types trend_args ! 1 = ''trend''
   \<and> create_stack trend_args = Inl (AssertionError ''Block type trend not found!'')
   \<and> arg_stack_types empty_trend_args ! 0 \<noteq> ''identity''
   \<and> create_stack empty_trend_args = Inr []"
  by code_simp

subsection \<open>The basis in nearest and linear mode\<close>

lemma length_upsample_nearest1d [simp]: "length (upsample_nearest1d xs n) = n"
  by (simp add: upsample_nearest1d_def)

lemma length_upsample_linear1d [simp]: "length (upsample_linear1d xs n) = n"
  by (simp add: upsample_linear1d_def)

lemma upsample_nearest1d_same: "upsample_nearest1d xs (length xs) = xs"
proof (rule nth_equalityI)
  show "length (upsample_nearest1d xs (length xs)) = length xs" by simp
next
  fix j assume "j < length (upsample_nearest1d xs (length xs))"
  then have j: "j < length xs" by simp
  then have "real (length xs) / real (length xs) = 1" by auto
  with j show "upsample_nearest1d xs (length xs) ! j = xs ! j"
    by (simp add: upsample_nearest1d_def)
qed

lemma upsample_linear1d_same: "upsample_linear1d xs (length xs) = xs"
proof (rule nth_equalityI)
  show "length (upsample_linear1d xs (length xs)) = length xs" by simp
next
  fix j assume "j < length (upsample_linear1d xs (length xs))"
  then have j: "j < length xs" by simp
  then have "xs \<noteq> []" by auto
  with j show "upsample_linear1d xs (length xs) ! j = xs ! j"
    by (simp add: upsample_linear1d_def Let_def)
qed

lemma upsample_nearest1d_single: "upsample_nearest1d [k] n = replicate n k"
  by (rule nth_equalityI) (simp_all add: upsample_nearest1d_def)

lemma upsample_linear1d_single: "upsample_linear1d [k] n = replicate n k"
  by (rule nth_equalityI) (simp_all add: upsample_linear1d_def Let_def algebra_simps)

lemma upsample_same_length:
  "length xs = H \<Longrightarrow> (if c then upsample_nearest1d else upsample_linear1d) xs H = xs"
  using upsample_nearest1d_same [of xs] upsample_linear1d_same [of xs] by auto

lemma upsample_single:
  "t < H \<Longrightarrow> (if c then upsample_nearest1d else upsample_linear1d) [k] H ! t = k"
  by (simp add: upsample_nearest1d_single upsample_linear1d_single)

lemma reshape_knots_Inr:
  assumes "knots \<noteq> []" and "0 < Q" and "0 < n"
    and "\<forall>r\<in>set knots. length r = Q * n"
  shows "reshape_knots knots (int Q) =
           Inr (map (\<lambda>r. map (\<lambda>c. take n (drop (c * n) r)) [0..<Q]) knots)"
proof -
  have bad: "\<not> list_ex (\<lambda>r. r = [] \<or> int (length r) mod int Q \<noteq> 0) knots"
    using assms by (auto simp: list_ex_iff simp flip: of_nat_mult of_nat_mod)
  have "map (\<lambda>r. let n = length r div nat (int Q) in map (\<lambda>c. take n (drop (c * n) r)) [0..<nat (int Q)]) knots
        = map (\<lambda>r. map (\<lambda>c. take n (drop (c * n) r)) [0..<Q]) knots"
    using assms by (intro map_cong) (auto simp: Let_def)
  with bad assms show ?thesis
    by (simp add: reshape_knots_def)
qed

lemma permute_021_rows:
  assumes "0 < Q" and "\<And>r q. r \<in> set rows \<Longrightarrow> q < Q \<Longrightarrow> length (f r q) = H"
  shows "permute_021 (map (\<lambda>r. map (f r) [0..<Q]) rows)
         = map (\<lambda>r. map (\<lambda>t. map (\<lambda>q. f r q ! t) [0..<Q]) [0..<H]) rows"
proof -
  have one: "(case map (f r) [0..<Q] of [] \<Rightarrow> []
          | x # rest \<Rightarrow> map (\<lambda>j. map (\<lambda>row. row ! j) (map (f r) [0..<Q])) [0..<length x])
        = map (\<lambda>t. map (\<lambda>q. f r q ! t) [0..<Q]) [0..<H]" if "r \<in> set rows" for r
  proof -
    define m where "m = map (f r) [0..<Q]"
    have "m \<noteq> []" using assms(1) by (simp add: m_def)
    moreover have "hd m = f r 0" using assms(1) by (simp add: m_def hd_map)
    moreover have "length (f r 0) = H" using assms that by simp
    ultimately have "(case m of [] \<Rightarrow> [] | x # rest \<Rightarrow> map (\<lambda>j. map (\<lambda>row. row ! j) m) [0..<length x])
        = map (\<lambda>j. map (\<lambda>row. row ! j) m) [0..<H]"
      by (cases m) auto
    also have "\<dots> = map (\<lambda>t. map (\<lambda>q. f r q ! t) [0..<Q]) [0..<H]"
      by (simp add: m_def comp_def)
    finally show ?thesis by (simp only: m_def)
  qed
  have "permute_021 (map (\<lambda>r. map (f r) [0..<Q]) rows)
        = map (\<lambda>r. case map (f r) [0..<Q] of [] \<Rightarrow> []
          | x # rest \<Rightarrow> map (\<lambda>j. map (\<lambda>row. row ! j) (map (f r) [0..<Q])) [0..<length x]) rows"
    by (simp only: permute_021_def map_map comp_def)
  also have "\<dots> = map (\<lambda>r. map (\<lambda>t. map (\<lambda>q. f r q ! t) [0..<Q]) [0..<H]) rows"
    by (rule map_cong [OF refl]) (rule one)
  finally show ?thesis .
qed

lemma F_interpolate_Inr:
  assumes "0 < H" and "\<forall>m\<in>set input. \<forall>r\<in>set m. r \<noteq> []"
    and "mode = ''nearest'' \<or> mode = ''linear''"
  shows "F_interpolate input (int H) mode =
           Inr (map (map (\<lambda>r. (if mode = ''nearest'' then upsample_nearest1d else upsample_linear1d) r H)) input)"
  using assms by (auto simp: F_interpolate_def list_ex_iff)

lemma IdentityBasis_forward_interpolated:
  assumes sizes: "backcast_size bs = int L" "out_features bs = int Q" "forecast_size bs = int H"
    and mode: "interpolation_mode bs = ''nearest'' \<or> interpolation_mode bs = ''linear''"
    and pos: "0 < Q" "0 < H" "0 < n"
    and theta: "theta \<noteq> []" "\<forall>row\<in>set theta. length row = L + Q * n"
  shows "IdentityBasis_forward bs theta =
           Inr (map (take L) theta,
                map (\<lambda>row. map (\<lambda>t. map (\<lambda>q.
                       (if interpolation_mode bs = ''nearest'' then upsample_nearest1d
                        else upsample_linear1d) (take n (drop (q * n) (drop L row))) H ! t)
                     [0..<Q]) [0..<H]) theta)"
proof -
  let ?up = "if interpolation_mode bs = ''nearest'' then upsample_nearest1d else upsample_linear1d"
  let ?knots = "map (\<lambda>row. drop L row) theta"
  have k1: "?knots \<noteq> []" using theta by simp
  have k2: "\<forall>r\<in>set ?knots. length r = Q * n" using theta by auto
  have reshaped: "reshape_knots ?knots (int Q)
      = Inr (map (\<lambda>r. map (\<lambda>c. take n (drop (c * n) r)) [0..<Q]) ?knots)"
    by (rule reshape_knots_Inr [OF k1 pos(1) pos(3) k2])
  let ?k3 = "map (\<lambda>r. map (\<lambda>c. take n (drop (c * n) r)) [0..<Q]) ?knots"
  have nonempty: "\<forall>m\<in>set ?k3. \<forall>r\<in>set m. r \<noteq> []"
  proof (intro ballI)
    fix m r assume "m \<in> set ?k3" and r: "r \<in> set m"
    then obtain row where row: "row \<in> set theta" and m: "m = map (\<lambda>c. take n (drop (c * n) (drop L row))) [0..<Q]"
      by auto
    from r m obtain c where c: "c < Q" and r': "r = take n (drop (c * n) (drop L row))" by auto
    from c have "c * n + n \<le> Q * n"
      by (metis Suc_leI mult_Suc mult_le_mono1 add.commute)
    with row theta have "length r = n" by (simp add: r')
    with pos show "r \<noteq> []" by auto
  qed
  have interp: "F_interpolate ?k3 (int H) (interpolation_mode bs)
      = Inr (map (map (\<lambda>r. ?up r H)) ?k3)"
    using F_interpolate_Inr [OF pos(2) nonempty mode] by simp
  have shape: "map (map (\<lambda>r. ?up r H)) ?k3
      = map (\<lambda>row. map (\<lambda>q. ?up (take n (drop (q * n) (drop L row))) H) [0..<Q]) theta"
    by (simp add: comp_def)
  have perm: "permute_021 (map (\<lambda>row. map (\<lambda>q. ?up (take n (drop (q * n) (drop L row))) H) [0..<Q]) theta)
      = map (\<lambda>row. map (\<lambda>t. map (\<lambda>q. ?up (take n (drop (q * n) (drop L row))) H ! t) [0..<Q]) [0..<H]) theta"
    by (rule permute_021_rows [OF pos(1)]) simp
  have in_modes: "interpolation_mode bs \<in> set [''nearest'', ''linear'']"
    using mode by auto
  show ?thesis
    unfolding IdentityBasis_forward_def Let_def sizes slice_to_nat slice_from_nat
    by (simp only: reshaped and_then_Inr in_modes if_True interp shape perm)
qed

text \<open>
  Claim C7. With as many knots as horizon steps, in nearest and in linear mode, the
  backcast is the first \<open>backcast_size\<close> entries of each row of theta and the forecast is
  the knots themselves: at step \<open>t\<close> and output \<open>q\<close>, entry \<open>backcast_size + q * H + t\<close>.
\<close>

theorem knots_equal_horizon_identity:
  assumes "backcast_size bs = int L" and "out_features bs = int Q" and "forecast_size bs = int H"
    and "interpolation_mode bs = ''nearest'' \<or> interpolation_mode bs = ''linear''"
    and "0 < Q" and "0 < H"
    and "theta \<noteq> []" and "\<forall>row\<in>set theta. length row = L + Q * H"
  shows "IdentityBasis_forward bs theta =
           Inr (map (take L) theta,
                map (\<lambda>row. map (\<lambda>t. map (\<lambda>q. row ! (L + q * H + t)) [0..<Q]) [0..<H]) theta)"
proof -
  let ?up = "if interpolation_mode bs = ''nearest'' then upsample_nearest1d else upsample_linear1d"
  have entry: "?up (take H (drop (q * H) (drop L row))) H ! t = row ! (L + q * H + t)"
    if "row \<in> set theta" "t < H" "q < Q" for row t q
  proof -
    from that(3) have "q * H + H \<le> Q * H"
      by (metis Suc_leI mult_Suc mult_le_mono1 add.commute)
    with that(1) assms(8) have len: "length (take H (drop (q * H) (drop L row))) = H" by simp
    have "?up (take H (drop (q * H) (drop L row))) H = take H (drop (q * H) (drop L row))"
      by (rule upsample_same_length [OF len])
    moreover have "take H (drop (q * H) (drop L row)) ! t = row ! (L + q * H + t)"
      using that(2) len by (simp add: ac_simps)
    ultimately show ?thesis by (simp only:)
  qed
  have "map (\<lambda>row. map (\<lambda>t. map (\<lambda>q. ?up (take H (drop (q * H) (drop L row))) H ! t) [0..<Q]) [0..<H]) theta
      = map (\<lambda>row. map (\<lambda>t. map (\<lambda>q. row ! (L + q * H + t)) [0..<Q]) [0..<H]) theta"
  proof (rule map_cong [OF refl], rule map_cong [OF refl], rule map_cong [OF refl])
    fix row t q assume row: "row \<in> set theta" and "t \<in> set [0..<H]" and "q \<in> set [0..<Q]"
    then have "t < H" and "q < Q" by simp_all
    with row show "?up (take H (drop (q * H) (drop L row))) H ! t = row ! (L + q * H + t)"
      by (rule entry)
  qed
  with IdentityBasis_forward_interpolated [OF assms(1-6) assms(6) assms(7,8)]
  show ?thesis by simp
qed

text \<open>
  The spec's scenario, theta \<open>[b0, b1, b2, b3, k0, k1]\<close> in linear mode, and two outputs
  per step in nearest mode.
\<close>

theorem knots_equal_horizon_identity_witness:
  "IdentityBasis_forward (small_basis ''linear'' 1) [[1, 2, 3, 4, 5, 6]]
     = Inr ([[1, 2, 3, 4]], [[[5], [6]]])
   \<and> IdentityBasis_forward (small_basis ''nearest'' 2) [[1, 2, 3, 4, 5, 6, 7, 8]]
     = Inr ([[1, 2, 3, 4]], [[[5, 7], [6, 8]]])"
  using knots_equal_horizon_identity [of "small_basis ''linear'' 1" 4 1 2 "[[1, 2, 3, 4, 5, 6]]"]
    knots_equal_horizon_identity [of "small_basis ''nearest'' 2" 4 2 2 "[[1, 2, 3, 4, 5, 6, 7, 8]]"]
  by (simp add: small_basis_def upt_rec)

text \<open>
  Claim C8. With a single knot per output, in linear (and in nearest) mode, every one of
  the \<open>H\<close> forecast steps of every batch element is the knot itself.
\<close>

theorem single_knot_constant:
  assumes "backcast_size bs = int L" and "out_features bs = int Q" and "forecast_size bs = int H"
    and "interpolation_mode bs = ''nearest'' \<or> interpolation_mode bs = ''linear''"
    and "0 < Q" and "0 < H"
    and "theta \<noteq> []" and "\<forall>row\<in>set theta. length row = L + Q"
  shows "IdentityBasis_forward bs theta =
           Inr (map (take L) theta, map (\<lambda>row. replicate H (drop L row)) theta)"
proof -
  let ?up = "if interpolation_mode bs = ''nearest'' then upsample_nearest1d else upsample_linear1d"
  have entry: "?up (take 1 (drop (q * 1) (drop L row))) H ! t = drop L row ! q"
    if "row \<in> set theta" "t < H" "q < Q" for row t q
  proof -
    from that assms(8) have "q < length (drop L row)" by simp
    then have "take 1 (drop (q * 1) (drop L row)) = [drop L row ! q]"
      by (simp add: take_Suc_conv_app_nth add.commute)
    then show ?thesis
      by (simp only: upsample_single [OF that(2)])
  qed
  have row: "map (\<lambda>t. map (\<lambda>q. ?up (take 1 (drop (q * 1) (drop L row))) H ! t) [0..<Q]) [0..<H]
      = replicate H (drop L row)" if "row \<in> set theta" for row
  proof -
    have "map (\<lambda>q. drop L row ! q) [0..<Q] = drop L row"
      using that assms(8) by (intro nth_equalityI) simp_all
    then have "map (\<lambda>t. map (\<lambda>q. drop L row ! q) [0..<Q]) [0..<H] = replicate H (drop L row)"
      by (simp add: map_replicate_const)
    moreover have "map (\<lambda>t. map (\<lambda>q. ?up (take 1 (drop (q * 1) (drop L row))) H ! t) [0..<Q]) [0..<H]
      = map (\<lambda>t. map (\<lambda>q. drop L row ! q) [0..<Q]) [0..<H]"
    proof (rule map_cong [OF refl], rule map_cong [OF refl])
      fix t q assume "t \<in> set [0..<H]" and "q \<in> set [0..<Q]"
      then have "t < H" and "q < Q" by simp_all
      with that show "?up (take 1 (drop (q * 1) (drop L row))) H ! t = drop L row ! q"
        by (rule entry)
    qed
    ultimately show ?thesis by simp
  qed
  have "map (\<lambda>row. map (\<lambda>t. map (\<lambda>q. ?up (take 1 (drop (q * 1) (drop L row))) H ! t) [0..<Q]) [0..<H]) theta
      = map (\<lambda>row. replicate H (drop L row)) theta"
    by (intro map_cong refl) (rule row)
  moreover have "\<forall>row\<in>set theta. length row = L + Q * 1" using assms(8) by simp
  ultimately show ?thesis
    using IdentityBasis_forward_interpolated [OF assms(1-6) zero_less_one assms(7)]
    by simp
qed

text \<open>Two batch elements, horizon 2, knots 5 and 7.\<close>

theorem single_knot_constant_witness:
  "IdentityBasis_forward (small_basis ''linear'' 1) [[1, 2, 3, 4, 5], [0, 0, 0, 0, 7]]
     = Inr ([[1, 2, 3, 4], [0, 0, 0, 0]], [[[5], [5]], [[7], [7]]])"
  using single_knot_constant [of "small_basis ''linear'' 1" 4 1 2 "[[1, 2, 3, 4, 5], [0, 0, 0, 0, 7]]"]
  by (simp add: small_basis_def numeral_2_eq_2)

subsection \<open>The basis in cubic mode\<close>

lemma isl_and_then: "isl (and_then r f) \<longleftrightarrow> isl r \<or> (\<exists>v. r = Inr v \<and> isl (f v))"
  by (cases r) simp_all

lemma isl_and_thenI: "isl r \<Longrightarrow> isl (and_then r f)"
  by (cases r) simp_all

lemma broadcast_rev_length:
  "broadcast_rev xs ys = Some zs \<Longrightarrow> length zs = max (length xs) (length ys)"
  by (induction xs ys arbitrary: zs rule: broadcast_rev.induct) (auto split: if_splits)

lemma broadcast_shapes_length:
  "broadcast_shapes s t = Some u \<Longrightarrow> length u = max (length s) (length t)"
  by (auto simp: broadcast_shapes_def dest: broadcast_rev_length)

lemma inplace_add_fewer_axes:
  assumes "length (dims out) < length (dims other)"
  shows "isl (inplace_add out other)"
proof (cases "broadcast_shapes (dims out) (dims other)")
  case None
  then show ?thesis by (simp add: inplace_add_def)
next
  case (Some shape)
  from broadcast_shapes_length [OF Some] assms have "shape \<noteq> dims out" by auto
  with Some show ?thesis by (simp add: inplace_add_def)
qed

lemma dims_tabulate [simp]: "dims (tabulate shape f) = shape"
  by (simp add: tabulate_def)

lemma F_interpolate_bicubic_dims:
  "F_interpolate_bicubic t s = Inr r \<Longrightarrow> length (dims r) = 4"
  by (auto simp: F_interpolate_bicubic_def split: list.splits if_splits)

lemma select1_dims: "select1 t = Inr r \<Longrightarrow> length (dims r) = 3"
  by (auto simp: select1_def split: list.splits if_splits)

lemma dims_slice0_zeros: "length (dims (slice0 (zeros [b, w]) i j)) = 2"
  by (simp add: slice0_def zeros_def)

lemma cubic_loop_first_round:
  "isl (cubic_loop knots batch_size s (i # rest) (zeros [b, w]))"
proof (cases "F_interpolate_bicubic (slice0 knots (i * batch_size) ((i + 1) * batch_size)) s")
  case (Inl e)
  then show ?thesis by simp
next
  case interpolated: (Inr forecast_i)
  show ?thesis
  proof (cases "select1 forecast_i")
    case (Inl e)
    with interpolated show ?thesis by simp
  next
    case (Inr part)
    have "length (dims (slice0 (zeros [b, w]) (i * batch_size) ((i + 1) * batch_size)))
        < length (dims part)"
      using select1_dims [OF Inr] dims_slice0_zeros [of b w "i * batch_size" "(i + 1) * batch_size"]
      by simp
    then have "isl (inplace_add (slice0 (zeros [b, w]) (i * batch_size) ((i + 1) * batch_size)) part)"
      by (rule inplace_add_fewer_axes)
    then show ?thesis
      by (simp only: cubic_loop.simps interpolated Inr and_then_Inr isl_and_thenI)
  qed
qed

lemma IdentityBasis_forward_not_interpolated:
  assumes "interpolation_mode bs \<notin> set [''nearest'', ''linear'']"
  shows "isl (IdentityBasis_forward bs theta)"
proof (cases "reshape_knots (map (\<lambda>row. slice_from row (backcast_size bs)) theta) (out_features bs)")
  case (Inl e)
  then show ?thesis by (simp add: IdentityBasis_forward_def)
next
  case (Inr knots)
  show ?thesis
  proof (cases "sublist ''cubic'' (interpolation_mode bs)")
    case False
    with Inr assms show ?thesis by (simp add: IdentityBasis_forward_def)
  next
    case cubic: True
    show ?thesis
    proof (cases "forecast_size bs < 0 \<or> theta = []")
      case True
      with Inr assms cubic show ?thesis by (auto simp: IdentityBasis_forward_def)
    next
      case False
      from Inr have rows: "length knots = length theta"
        by (auto simp: reshape_knots_def split: if_splits)
      from False have "theta \<noteq> []" by simp
      then have one: "real (length theta) / real (length theta) = 1" by simp
      have ratio: "real (length knots) / real (length theta) = 1"
        unfolding rows by (rule one)
      have rounds: "[0..<nat \<lceil>real (length knots) / real (length theta)\<rceil>] = [0]"
        unfolding ratio by simp
      have "isl (cubic_loop (unsqueeze1 knots) (length theta) (forecast_size bs) [0]
                   (zeros [length knots, nat (forecast_size bs)]))"
        by (rule cubic_loop_first_round)
      then have "isl (and_then (cubic_loop (unsqueeze1 knots) (length theta) (forecast_size bs) [0]
                   (zeros [length knots, nat (forecast_size bs)])) f)" for f
        by (rule isl_and_thenI)
      with False Inr assms cubic show ?thesis
        by (simp add: IdentityBasis_forward_def Let_def rounds del: cubic_loop.simps)
    qed
  qed
qed

text \<open>
  Claim C4. In cubic mode the forward pass of the basis never returns, whatever theta is:
  the buffer \<^verbatim>\<open>forecast\<close> has the two axes \<open>[B, H]\<close>, the interpolated chunk
  \<^verbatim>\<open>forecast_i[:,0,:,:]\<close> has the three axes \<open>[B, H, H]\<close>, and the in-place addition of
  the first round raises. There is no chunked forecast to compare with the interpolation
  of the whole batch.
\<close>

theorem cubic_mode_raises:
  assumes "sublist ''cubic'' (interpolation_mode bs)"
    and "interpolation_mode bs \<notin> set [''nearest'', ''linear'']"
  shows "isl (IdentityBasis_forward bs theta)"
  using assms(2) by (rule IdentityBasis_forward_not_interpolated)

text \<open>The spec's scenario in cubic mode: one window, four backcast entries, two knots.\<close>

theorem cubic_mode_raises_witness:
  "isl (IdentityBasis_forward (small_basis ''cubic'' 1) [[1, 2, 3, 4, 5, 6]])
   \<and> IdentityBasis_forward (small_basis ''cubic'' 1) [[1, 2, 3, 4, 5, 6]]
       = Inl (RuntimeError ''output shape does not match the broadcast shape'')"
proof -
  have "sublist ''cubic'' (interpolation_mode (small_basis ''cubic'' 1))"
    by (simp add: small_basis_def)
  moreover have "interpolation_mode (small_basis ''cubic'' 1) \<notin> set [''nearest'', ''linear'']"
    by (simp add: small_basis_def)
  ultimately have "isl (IdentityBasis_forward (small_basis ''cubic'' 1) [[1, 2, 3, 4, 5, 6]])"
    by (rule cubic_mode_raises)
  moreover have "IdentityBasis_forward (small_basis ''cubic'' 1) [[1, 2, 3, 4, 5, 6]]
       = Inl (RuntimeError ''output shape does not match the broadcast shape'')"
    by code_simp
  ultimately show ?thesis by simp
qed

subsection \<open>Shapes of what a block returns\<close>

lemma reshape_knots_shape:
  assumes "reshape_knots knots (int Q) = Inr k3"
  shows "0 < Q \<and> length k3 = length knots \<and> (\<forall>m\<in>set k3. length m = Q)"
  using assms by (auto simp: reshape_knots_def Let_def split: if_splits)

lemma F_interpolate_shape:
  assumes "F_interpolate k3 (int H) mode = Inr f3"
  shows "length f3 = length k3
       \<and> (\<forall>i<length k3. length (f3 ! i) = length (k3 ! i) \<and> (\<forall>r\<in>set (f3 ! i). length r = H))"
  using assms by (auto simp: F_interpolate_def split: if_splits)

lemma permute_021_shape:
  assumes "length f3 = B" and "0 < Q"
    and "\<forall>i<B. length (f3 ! i) = Q \<and> (\<forall>r\<in>set (f3 ! i). length r = H)"
  shows "has_shape3 B H Q (permute_021 f3)"
proof -
  have one: "length (case m of [] \<Rightarrow> [] | r # rest \<Rightarrow> map (\<lambda>j. map (\<lambda>row. row ! j) m) [0..<length r]) = H
      \<and> list_all (\<lambda>x. length x = Q)
          (case m of [] \<Rightarrow> [] | r # rest \<Rightarrow> map (\<lambda>j. map (\<lambda>row. row ! j) m) [0..<length r])"
    if "length m = Q" "\<forall>r\<in>set m. length r = H" for m :: "'a list list"
  proof (cases m)
    case Nil
    with that(1) assms(2) show ?thesis by simp
  next
    case (Cons r rest)
    with that(2) have "length r = H" by simp
    with Cons that(1) show ?thesis by (simp add: list_all_iff)
  qed
  have "list_all (\<lambda>m. length m = H \<and> list_all (\<lambda>r. length r = Q) m) (permute_021 f3)"
    unfolding permute_021_def list_all_length
  proof (intro allI impI)
    fix i assume "i < length (map (\<lambda>m. case m of [] \<Rightarrow> []
        | r # rest \<Rightarrow> map (\<lambda>j. map (\<lambda>row. row ! j) m) [0..<length r]) f3)"
    then have i: "i < B" using assms(1) by simp
    with assms(3) have "length (f3 ! i) = Q" "\<forall>r\<in>set (f3 ! i). length r = H" by simp_all
    from one [OF this] i assms(1)
    show "length (map (\<lambda>m. case m of [] \<Rightarrow> []
        | r # rest \<Rightarrow> map (\<lambda>j. map (\<lambda>row. row ! j) m) [0..<length r]) f3 ! i) = H
      \<and> (\<forall>n<length (map (\<lambda>m. case m of [] \<Rightarrow> []
        | r # rest \<Rightarrow> map (\<lambda>j. map (\<lambda>row. row ! j) m) [0..<length r]) f3 ! i).
            length (map (\<lambda>m. case m of [] \<Rightarrow> []
        | r # rest \<Rightarrow> map (\<lambda>j. map (\<lambda>row. row ! j) m) [0..<length r]) f3 ! i ! n) = Q)"
      by (simp add: list_all_length)
  qed
  with assms(1) show ?thesis by (simp add: has_shape3_def permute_021_def)
qed

lemma IdentityBasis_forward_shape:
  assumes "IdentityBasis_forward bs theta = Inr (backcast, fc)"
    and "forecast_size bs = int H" and "out_features bs = int Q"
  shows "length backcast = length theta \<and> has_shape3 (length theta) H Q fc"
proof -
  have mode: "interpolation_mode bs \<in> set [''nearest'', ''linear'']"
    using IdentityBasis_forward_not_interpolated [of bs theta] assms(1) by auto
  with assms obtain k3 f3 where
    k3: "reshape_knots (map (\<lambda>row. slice_from row (backcast_size bs)) theta) (int Q) = Inr k3"
    and f3: "F_interpolate k3 (int H) (interpolation_mode bs) = Inr f3"
    and fc: "fc = permute_021 f3"
    and backcast: "backcast = map (\<lambda>row. slice_to row (backcast_size bs)) theta"
    by (auto simp: IdentityBasis_forward_def Let_def and_then_eq_Inr split: if_splits)
  from reshape_knots_shape [OF k3] have q: "0 < Q" and len: "length k3 = length theta"
    and rows: "\<forall>m\<in>set k3. length m = Q" by simp_all
  from F_interpolate_shape [OF f3] len rows
  have "length f3 = length theta"
    and "\<forall>i<length theta. length (f3 ! i) = Q \<and> (\<forall>r\<in>set (f3 ! i). length r = H)"
    by auto
  from permute_021_shape [OF this(1) q this(2)] backcast fc show ?thesis by simp
qed

lemma cat1_length: "cat1 a b = Inr c \<Longrightarrow> length c = length a"
  by (auto simp: cat1_def split: if_splits)

lemma NHITSBlock_forward_shape:
  assumes "NHITSBlock_forward block md res fx hx sx = Inr (backcast, fc)"
    and "forecast_size (basis block) = int H" and "out_features (basis block) = int Q"
    and "\<forall>x theta. layers_fn md x = Inr theta \<longrightarrow> length theta = length x"
  shows "length backcast = length res \<and> has_shape3 (length res) H Q fc"
proof -
  let ?pooled = "map (pooling_fn md) res"
  from assms(1) obtain a b features theta where
    a: "(if hist_input_size block > 0
         then (case hx of None \<Rightarrow> Inl AttributeError
               | Some x \<Rightarrow>
                   and_then (reshape_rows (length ?pooled) (concat (map concat (pool_exog md x))))
                     (cat1 ?pooled))
         else Inr ?pooled) = Inr a"
    and b: "(if futr_input_size block > 0
         then (case fx of None \<Rightarrow> Inl AttributeError
               | Some x \<Rightarrow>
                   and_then (reshape_rows (length ?pooled) (concat (map concat (pool_exog md x))))
                     (cat1 a))
         else Inr a) = Inr b"
    and features: "(if stat_input_size block > 0
         then (case sx of None \<Rightarrow> Inl AttributeError
               | Some x \<Rightarrow> and_then (reshape_rows (length ?pooled) (concat x)) (cat1 b))
         else Inr b) = Inr features"
    and theta: "layers_fn md features = Inr theta"
    and out: "IdentityBasis_forward (basis block) theta = Inr (backcast, fc)"
    by (auto simp: NHITSBlock_forward_def Let_def and_then_eq_Inr)
  from a have "length a = length res"
    by (auto simp: and_then_eq_Inr split: if_splits option.splits dest: cat1_length)
  with b have "length b = length res"
    by (auto simp: and_then_eq_Inr split: if_splits option.splits dest: cat1_length)
  with features have "length features = length res"
    by (auto simp: and_then_eq_Inr split: if_splits option.splits dest: cat1_length)
  with theta assms(4) have "length theta = length res" by auto
  with IdentityBasis_forward_shape [OF out assms(2,3)] show ?thesis by simp
qed

subsection \<open>Broadcasting\<close>

lemma sequence_map_Inr:
  "sequence (map f xs) = Inr ys \<longleftrightarrow> length ys = length xs \<and> (\<forall>i<length xs. f (xs ! i) = Inr (ys ! i))"
proof (induction xs arbitrary: ys)
  case Nil
  then show ?case by auto
next
  case (Cons x xs)
  show ?case
  proof (cases ys)
    case Nil
    then show ?thesis by (auto simp: and_then_eq_Inr)
  next
    case (Cons y ys')
    then show ?thesis
      by (auto simp: and_then_eq_Inr Cons.IH less_Suc_eq_0_disj)
  qed
qed

lemma broadcast_Inr:
  assumes "broadcast f xs ys = Inr zs"
  shows "length zs = (if length xs = 1 then length ys else length xs)"
    and "i < length zs \<Longrightarrow> f (stretch xs i) (stretch ys i) = Inr (zs ! i)"
proof -
  consider (same) "length xs = length ys"
    | (left) "length xs \<noteq> length ys" "length xs = 1"
    | (right) "length xs \<noteq> length ys" "length xs \<noteq> 1" "length ys = 1"
    using assms by (auto simp: broadcast_def split: if_splits)
  then have "length zs = (if length xs = 1 then length ys else length xs)
      \<and> (i < length zs \<longrightarrow> f (stretch xs i) (stretch ys i) = Inr (zs ! i))"
  proof cases
    case same
    with assms have "sequence (map (\<lambda>(x, y). f x y) (zip xs ys)) = Inr zs"
      by (simp add: broadcast_def)
    with same show ?thesis
      by (auto simp: sequence_map_Inr stretch_def)
  next
    case left
    with assms have "sequence (map (\<lambda>y. f (hd xs) y) ys) = Inr zs"
      by (simp add: broadcast_def)
    moreover from left have "hd xs = xs ! 0" by (cases xs) auto
    ultimately show ?thesis using left
      by (auto simp: sequence_map_Inr stretch_def)
  next
    case right
    with assms have "sequence (map (\<lambda>x. f x (hd ys)) xs) = Inr zs"
      by (simp add: broadcast_def)
    moreover from right have "hd ys = ys ! 0" by (cases ys) auto
    ultimately show ?thesis using right
      by (auto simp: sequence_map_Inr stretch_def)
  qed
  then show "length zs = (if length xs = 1 then length ys else length xs)"
    and "i < length zs \<Longrightarrow> f (stretch xs i) (stretch ys i) = Inr (zs ! i)" by simp_all
qed

lemma broadcast_same:
  assumes "length xs = length ys"
    and "\<And>i. i < length xs \<Longrightarrow> f (xs ! i) (ys ! i) = Inr (g i)"
  shows "broadcast f xs ys = Inr (map g [0..<length xs])"
proof -
  have "sequence (map (\<lambda>(x, y). f x y) (zip xs ys)) = Inr (map g [0..<length xs])"
    using assms by (simp add: sequence_map_Inr)
  with assms(1) show ?thesis by (simp add: broadcast_def)
qed

lemma broadcast_single:
  assumes "\<And>i. i < length ys \<Longrightarrow> f x (ys ! i) = Inr (g i)"
  shows "broadcast f [x] ys = Inr (map g [0..<length ys])"
proof (cases "length ys = 1")
  case True
  then obtain y where ys: "ys = [y]" by (cases ys) auto
  with assms [of 0] show ?thesis by (simp add: broadcast_def)
next
  case False
  have "sequence (map (\<lambda>y. f x y) ys) = Inr (map g [0..<length ys])"
    using assms by (simp add: sequence_map_Inr)
  with False show ?thesis by (auto simp: broadcast_def)
qed

lemma has_shape3D:
  assumes "has_shape3 B H Q c"
  shows "length c = B" and "b < B \<Longrightarrow> length (c ! b) = H"
    and "b < B \<Longrightarrow> t < H \<Longrightarrow> length (c ! b ! t) = Q"
  using assms by (auto simp: has_shape3_def list_all_length)

lemma add3_level:
  assumes "has_shape3 (length y) H Q c" and "\<forall>row\<in>set y. row \<noteq> []"
  shows "add3 (map (\<lambda>row. map (\<lambda>v. [v]) (slice_from row (- 1))) y) c
         = Inr (table3 (length y) H Q (\<lambda>b t q. last (y ! b) + c ! b ! t ! q))"
proof -
  note shape = has_shape3D [OF assms(1)]
  have level: "map (\<lambda>v. [v]) (slice_from (y ! b) (- 1)) = [[last (y ! b)]]" if "b < length y" for b
  proof -
    from that assms(2) have "y ! b \<noteq> []" by auto
    then have "drop (length (y ! b) - 1) (y ! b) = [last (y ! b)]"
      by (cases "y ! b" rule: rev_cases) auto
    then show ?thesis by (simp add: slice_from_def)
  qed
  have inner: "broadcast (\<lambda>x y. Inr (x + y)) [last (y ! b)] (c ! b ! t)
        = Inr (map (\<lambda>q. last (y ! b) + c ! b ! t ! q) [0..<Q])" if "b < length y" "t < H" for b t
    using broadcast_single [of "c ! b ! t" "\<lambda>x y. Inr (x + y)" "last (y ! b)"
        "\<lambda>q. last (y ! b) + c ! b ! t ! q"] shape(3) [OF that] by simp
  have middle: "broadcast (broadcast (\<lambda>x y. Inr (x + y))) [[last (y ! b)]] (c ! b)
        = Inr (map (\<lambda>t. map (\<lambda>q. last (y ! b) + c ! b ! t ! q) [0..<Q]) [0..<H])" if "b < length y" for b
    using broadcast_single [of "c ! b" "broadcast (\<lambda>x y. Inr (x + y))" "[last (y ! b)]"
        "\<lambda>t. map (\<lambda>q. last (y ! b) + c ! b ! t ! q) [0..<Q]"] inner [OF that] shape(2) [OF that]
    by simp
  have "broadcast (broadcast (broadcast (\<lambda>x y. Inr (x + y))))
          (map (\<lambda>row. map (\<lambda>v. [v]) (slice_from row (- 1))) y) c
        = Inr (map (\<lambda>b. map (\<lambda>t. map (\<lambda>q. last (y ! b) + c ! b ! t ! q) [0..<Q]) [0..<H])
                 [0..<length (map (\<lambda>row. map (\<lambda>v. [v]) (slice_from row (- 1))) y)])"
    by (rule broadcast_same) (simp_all add: shape(1) level middle)
  then show ?thesis by (simp add: add3_def table3_def)
qed

lemma add3_table:
  assumes "has_shape3 B H Q c"
  shows "add3 (table3 B H Q f) c = Inr (table3 B H Q (\<lambda>b t q. f b t q + c ! b ! t ! q))"
proof -
  note shape = has_shape3D [OF assms(1)]
  have inner: "broadcast (\<lambda>x y. Inr (x + y)) (map (f b t) [0..<Q]) (c ! b ! t)
        = Inr (map (\<lambda>q. f b t q + c ! b ! t ! q) [0..<Q])" if "b < B" "t < H" for b t
    using broadcast_same [of "map (f b t) [0..<Q]" "c ! b ! t" "\<lambda>x y. Inr (x + y)"
        "\<lambda>q. f b t q + c ! b ! t ! q"] shape(3) [OF that] by simp
  have middle: "broadcast (broadcast (\<lambda>x y. Inr (x + y)))
          (map (\<lambda>t. map (f b t) [0..<Q]) [0..<H]) (c ! b)
        = Inr (map (\<lambda>t. map (\<lambda>q. f b t q + c ! b ! t ! q) [0..<Q]) [0..<H])" if "b < B" for b
    using broadcast_same [of "map (\<lambda>t. map (f b t) [0..<Q]) [0..<H]" "c ! b"
        "broadcast (\<lambda>x y. Inr (x + y))" "\<lambda>t. map (\<lambda>q. f b t q + c ! b ! t ! q) [0..<Q]"]
      inner [OF that] shape(2) [OF that] by simp
  have "broadcast (broadcast (broadcast (\<lambda>x y. Inr (x + y))))
          (map (\<lambda>b. map (\<lambda>t. map (f b t) [0..<Q]) [0..<H]) [0..<B]) c
        = Inr (map (\<lambda>b. map (\<lambda>t. map (\<lambda>q. f b t q + c ! b ! t ! q) [0..<Q]) [0..<H])
                 [0..<length (map (\<lambda>b. map (\<lambda>t. map (f b t) [0..<Q]) [0..<H]) [0..<B])])"
    by (rule broadcast_same) (simp_all add: shape(1) middle)
  then show ?thesis by (simp add: add3_def table3_def)
qed

lemma residual_update_length:
  assumes "sub2 res backcast = Inr difference" and "mul2 difference m = Inr res'"
    and "length backcast = length res" and "length m = length res"
  shows "length res' = length res"
proof -
  from assms(1) have "length difference = (if length res = 1 then length backcast else length res)"
    unfolding sub2_def by (rule broadcast_Inr(1))
  with assms(3) have "length difference = length res" by simp
  moreover from assms(2) have "length res' = (if length difference = 1 then length m else length difference)"
    unfolding mul2_def by (rule broadcast_Inr(1))
  ultimately show ?thesis using assms(4) by simp
qed

subsection \<open>The residual under the mask\<close>

lemma float_mul_zero: "float_mul x (Finite 0) = (if is_finite x then Finite 0 else NaN)"
  by (cases x) (simp_all add: round_float32_def)

lemma mul2_float_masked_entries:
  assumes "mul2_float difference m = Inr r"
  shows "masked_entries m difference r"
  unfolding masked_entries_def list_all_iff
proof (intro ballI impI)
  fix b j assume "b \<in> set [0..<length r]" and "j \<in> set [0..<length (r ! b)]"
    and zero: "stretch (stretch m b) j = Finite 0"
  then have b: "b < length r" and j: "j < length (r ! b)" by simp_all
  from assms have outer: "broadcast (broadcast (\<lambda>x y. Inr (float_mul x y))) difference m = Inr r"
    by (simp add: mul2_float_def)
  from broadcast_Inr(2) [OF outer b]
  have inner: "broadcast (\<lambda>x y. Inr (float_mul x y)) (stretch difference b) (stretch m b)
               = Inr (r ! b)" .
  from broadcast_Inr(2) [OF inner j] zero
  show "r ! b ! j = (if is_finite (stretch (stretch difference b) j) then Finite 0 else NaN)"
    by (simp add: float_mul_zero)
qed

lemma forward_loop_float_append:
  "forward_loop_float d (xs @ ys) m st
   = and_then (forward_loop_float d xs m st) (forward_loop_float d ys m)"
proof (induction xs arbitrary: st)
  case Nil
  then show ?case by simp
next
  case (Cons blk xs)
  obtain res fc acc where st: "st = (res, fc, acc)" by (cases st)
  show ?case
    unfolding st
    by (auto simp: and_then_def Cons.IH split: sum.splits prod.splits)
qed

lemma forward_loop_float_last_step:
  assumes "forward_loop_float d (blks @ [blk]) m st = Inr (res, fc, acc)"
  shows "\<exists>prev fc' acc' backcast block_forecast difference.
           forward_loop_float d blks m st = Inr (prev, fc', acc')
           \<and> blk prev = Inr (backcast, block_forecast)
           \<and> sub2_float prev backcast = Inr difference
           \<and> mul2_float difference m = Inr res"
proof -
  from assms obtain mid where mid: "forward_loop_float d blks m st = Inr mid"
    and last: "forward_loop_float d [blk] m mid = Inr (res, fc, acc)"
    by (auto simp: forward_loop_float_append and_then_eq_Inr)
  obtain r f a where "mid = (r, f, a)" by (cases mid)
  with mid last show ?thesis
    by (auto simp: and_then_eq_Inr)
qed

text \<open>
  Claim C2, as it holds. Whenever the loop has run some blocks \<open>blks\<close> and one more block
  \<open>blk\<close> (so after every iteration, the first and every later one, also of a run that
  raises afterwards), the residual is the product of the mask and the difference
  \<open>residual - backcast\<close> of that iteration, and at every position where the mask is 0 it
  is exactly zero if that difference is finite there and NaN if the difference is an
  infinity or NaN. Here \<open>m\<close> is the mask as the loop reads it, time-reversed.
\<close>

theorem masked_residual_zero_or_nan:
  assumes "forward_loop_float d (blks @ [blk]) m st = Inr (res, fc, acc)"
  shows "\<exists>prev fc' acc' backcast block_forecast difference.
           forward_loop_float d blks m st = Inr (prev, fc', acc')
           \<and> blk prev = Inr (backcast, block_forecast)
           \<and> sub2_float prev backcast = Inr difference
           \<and> mul2_float difference m = Inr res
           \<and> masked_entries m difference res"
  using forward_loop_float_last_step [OF assms] mul2_float_masked_entries by blast

text \<open>
  Two blocks over the two example windows. In the second iteration the difference at the
  masked position of the first window is \<open>0 - 2\<close>, and the mask turns it into 0; at the
  masked position of the second window it is NaN and stays NaN.
\<close>

theorem masked_residual_zero_or_nan_witness:
  "forward_loop_float False ([constant_block 1] @ [constant_block 2]) (map rev available)
     ([[Finite 5, Finite 7, Finite 2], [Finite 3, Finite 1, NaN]],
      [[[Finite 5]], [[Finite 3]]], [[[[Finite 5]], [[Finite 3]]]])
   = Inr ([[Finite 2, Finite 4, Finite 0], [Finite 0, Finite (- 2), NaN]],
          [[[Finite 8]], [[Finite 6]]], [[[[Finite 5]], [[Finite 3]]]])
   \<and> masked_entries (map rev available)
        [[Finite 2, Finite 4, Finite (- 2)], [Finite 0, Finite (- 2), NaN]]
        [[Finite 2, Finite 4, Finite 0], [Finite 0, Finite (- 2), NaN]]"
proof -
  let ?st = "([[Finite 5, Finite 7, Finite 2], [Finite 3, Finite 1, NaN]],
              [[[Finite 5]], [[Finite 3]]], [[[[Finite 5]], [[Finite 3]]]])"
  let ?mid = "[[Finite 4, Finite 6, Finite 0], [Finite 2, Finite 0, NaN]]"
  have run: "forward_loop_float False ([constant_block 1] @ [constant_block 2])
               (map rev available) ?st
             = Inr ([[Finite 2, Finite 4, Finite 0], [Finite 0, Finite (- 2), NaN]],
                    [[[Finite 8]], [[Finite 6]]], [[[[Finite 5]], [[Finite 3]]]])"
    by code_simp
  have first: "forward_loop_float False [constant_block 1] (map rev available) ?st
               = Inr (?mid, [[[Finite 6]], [[Finite 4]]], [[[[Finite 5]], [[Finite 3]]]])"
    by code_simp
  have backcast: "constant_block 2 ?mid
                  = Inr ([[Finite 2, Finite 2, Finite 2], [Finite 2, Finite 2, Finite 2]],
                         [[[Finite 2]], [[Finite 2]]])"
    by code_simp
  have difference: "sub2_float ?mid [[Finite 2, Finite 2, Finite 2], [Finite 2, Finite 2, Finite 2]]
                    = Inr [[Finite 2, Finite 4, Finite (- 2)], [Finite 0, Finite (- 2), NaN]]"
    by code_simp
  from masked_residual_zero_or_nan [OF run] first backcast difference
  have "masked_entries (map rev available)
          [[Finite 2, Finite 4, Finite (- 2)], [Finite 0, Finite (- 2), NaN]]
          [[Finite 2, Finite 4, Finite 0], [Finite 0, Finite (- 2), NaN]]"
    by auto
  with run show ?thesis by simp
qed

text \<open>
  The claim as the specification words it fails: the second example window, whose oldest
  observation is NaN under a zero mask. After the time reversal that observation is the
  last entry of the residual; the mask is 0 there, and after the first block the
  residual there is NaN, not zero.
\<close>

theorem nan_under_zero_mask_counterexample:
  "initial_state_float 1 observed
   = Inr ([[Finite 5, Finite 7, Finite 2], [Finite 3, Finite 1, NaN]],
          [[[Finite 5]], [[Finite 3]]], [[[[Finite 5]], [[Finite 3]]]])
   \<and> forward_loop_float False [constant_block 1] (map rev available)
        ([[Finite 5, Finite 7, Finite 2], [Finite 3, Finite 1, NaN]],
         [[[Finite 5]], [[Finite 3]]], [[[[Finite 5]], [[Finite 3]]]])
     = Inr ([[Finite 4, Finite 6, Finite 0], [Finite 2, Finite 0, NaN]],
            [[[Finite 6]], [[Finite 4]]], [[[[Finite 5]], [[Finite 3]]]])
   \<and> map rev available ! 1 ! 2 = Finite 0
   \<and> [[Finite 4, Finite 6, Finite 0], [Finite 2, Finite 0, NaN]] ! 1 ! 2 \<noteq> Finite 0"
  by code_simp

text \<open>
  Finite operands are not enough for a finite difference: \<open>2^127 - (- 2^127)\<close> overflows
  to \<open>+inf\<close>, which the zero mask turns into NaN.
\<close>

lemma overflowing_difference_example:
  "forward_loop_float False [constant_block (- (2 ^ 127))] [[Finite 0]]
     ([[Finite (2 ^ 127)]], [[[Finite 0]]], [])
   = Inr ([[NaN]], [[[Finite (- (2 ^ 127))]]], [])"
  by code_simp

subsection \<open>The accumulated forecast\<close>

lemma forward_loop_flag:
  "forward_loop False blks w m (res, fc, acc)
     = (case forward_loop True blks w m (res, fc, acc') of
          Inl e \<Rightarrow> Inl e
        | Inr (res', fc', collected) \<Rightarrow> Inr (res', fc', acc))"
proof (induction blks arbitrary: res fc acc acc')
  case Nil
  then show ?case by simp
next
  case (Cons blk blks)
  obtain block md where blk: "blk = (block, md)" by (cases blk)
  show ?case
  proof (cases "NHITSBlock_forward block md res (futr_exog w) (hist_exog w) (stat_exog w)")
    case (Inl e)
    then show ?thesis by (simp add: blk)
  next
    case (Inr pair)
    obtain backcast c where pair: "pair = (backcast, c)" by (cases pair)
    show ?thesis
    proof (cases "and_then (sub2 res backcast) (\<lambda>difference. and_then (mul2 difference m)
                    (\<lambda>res1. and_then (add3 fc c) (\<lambda>fc1. Inr (res1, fc1))))")
      case (Inl e)
      with Inr show ?thesis
        by (auto simp: blk pair and_then_def split: sum.splits)
    next
      case next_state: (Inr st)
      obtain res1 fc1 where st: "st = (res1, fc1)" by (cases st)
      from next_state Inr have
        "forward_loop False (blk # blks) w m (res, fc, acc) = forward_loop False blks w m (res1, fc1, acc)"
        "forward_loop True (blk # blks) w m (res, fc, acc') = forward_loop True blks w m (res1, fc1, acc' @ [c])"
        by (auto simp: blk pair st and_then_def split: sum.splits)
      with Cons.IH [of res1 fc1 acc "acc' @ [c]"] show ?thesis by simp
    qed
  qed
qed

lemma forward_loop_flag_Inr:
  assumes "forward_loop False blks w m (res, fc, acc) = Inr (res', fc', acc')"
  shows "\<exists>collected. forward_loop True blks w m (res, fc, acc) = Inr (res', fc', collected)"
  using assms forward_loop_flag [of blks w m res fc acc acc]
  by (auto split: sum.splits)

lemma forward_loop_collects:
  "forward_loop True blks w m (res, fc, acc) = Inr (res', fc', acc') \<Longrightarrow>
     \<exists>cs. acc' = acc @ cs \<and> length cs = length blks"
proof (induction blks arbitrary: res fc acc)
  case Nil
  then show ?case by simp
next
  case (Cons blk blks)
  obtain block md where blk: "blk = (block, md)" by (cases blk)
  from Cons.prems obtain res1 fc1 c where
    "forward_loop True blks w m (res1, fc1, acc @ [c]) = Inr (res', fc', acc')"
    by (auto simp: blk and_then_eq_Inr)
  from Cons.IH [OF this] obtain cs where "acc' = (acc @ [c]) @ cs" "length cs = length blks"
    by blast
  then have "acc' = acc @ (c # cs) \<and> length (c # cs) = length (blk # blks)" by simp
  then show ?case by blast
qed

lemma forward_loop_table:
  assumes "forward_loop True blks w m (res, table3 B H Q f, acc) = Inr (res', fc', acc @ cs)"
    and "\<forall>c\<in>set cs. has_shape3 B H Q c"
  shows "fc' = table3 B H Q (\<lambda>b t q. f b t q + (\<Sum>c\<leftarrow>cs. c ! b ! t ! q))"
  using assms
proof (induction blks arbitrary: res f acc cs)
  case Nil
  then show ?case by simp
next
  case (Cons blk blks)
  obtain block md where blk: "blk = (block, md)" by (cases blk)
  from Cons.prems(1) obtain res1 fc1 c where
    sum: "add3 (table3 B H Q f) c = Inr fc1"
    and rest: "forward_loop True blks w m (res1, fc1, acc @ [c]) = Inr (res', fc', acc @ cs)"
    by (auto simp: blk and_then_eq_Inr)
  from forward_loop_collects [OF rest] obtain cs' where cs': "acc @ cs = (acc @ [c]) @ cs'"
    by blast
  then have cs: "cs = c # cs'" by simp
  with Cons.prems(2) have c: "has_shape3 B H Q c" and others: "\<forall>c\<in>set cs'. has_shape3 B H Q c"
    by simp_all
  from sum add3_table [OF c] have fc1: "fc1 = table3 B H Q (\<lambda>b t q. f b t q + c ! b ! t ! q)"
    by simp
  from rest have "forward_loop True blks w m
      (res1, table3 B H Q (\<lambda>b t q. f b t q + c ! b ! t ! q), acc @ [c]) = Inr (res', fc', (acc @ [c]) @ cs')"
    by (simp add: fc1 cs)
  from Cons.IH [OF this others] show ?case
    by (simp add: cs add.assoc)
qed

lemma forward_loop_from_level:
  assumes "forward_loop True (blk # blks) w m
             (res, map (\<lambda>row. map (\<lambda>v. [v]) (slice_from row (- 1))) y, acc) = Inr (res', fc', acc @ cs)"
    and "\<forall>c\<in>set cs. has_shape3 (length y) H Q c" and "\<forall>row\<in>set y. row \<noteq> []"
  shows "fc' = table3 (length y) H Q (\<lambda>b t q. last (y ! b) + (\<Sum>c\<leftarrow>cs. c ! b ! t ! q))"
proof -
  obtain block md where blk: "blk = (block, md)" by (cases blk)
  from assms(1) obtain res1 fc1 c where
    sum: "add3 (map (\<lambda>row. map (\<lambda>v. [v]) (slice_from row (- 1))) y) c = Inr fc1"
    and rest: "forward_loop True blks w m (res1, fc1, acc @ [c]) = Inr (res', fc', acc @ cs)"
    by (auto simp: blk and_then_eq_Inr)
  from forward_loop_collects [OF rest] obtain cs' where cs': "acc @ cs = (acc @ [c]) @ cs'"
    by blast
  then have cs: "cs = c # cs'" by simp
  with assms(2) have c: "has_shape3 (length y) H Q c"
    and others: "\<forall>c\<in>set cs'. has_shape3 (length y) H Q c" by simp_all
  from sum add3_level [OF c assms(3)]
  have fc1: "fc1 = table3 (length y) H Q (\<lambda>b t q. last (y ! b) + c ! b ! t ! q)" by simp
  from rest have "forward_loop True blks w m
      (res1, table3 (length y) H Q (\<lambda>b t q. last (y ! b) + c ! b ! t ! q), acc @ [c])
      = Inr (res', fc', (acc @ [c]) @ cs')"
    by (simp add: fc1 cs)
  from forward_loop_table [OF this others] show ?thesis
    by (simp add: cs add.assoc)
qed

lemma forward_loop_shapes:
  assumes "forward_loop True blks w m (res, fc, acc) = Inr (res', fc', acc @ cs)"
    and "length m = length res"
    and "\<forall>(block, md)\<in>set blks. forecast_size (basis block) = int H
            \<and> out_features (basis block) = int Q
            \<and> (\<forall>x theta. layers_fn md x = Inr theta \<longrightarrow> length theta = length x)"
  shows "\<forall>c\<in>set cs. has_shape3 (length res) H Q c"
  using assms
proof (induction blks arbitrary: res fc acc cs)
  case Nil
  then show ?case by simp
next
  case (Cons blk blks)
  obtain block md where blk: "blk = (block, md)" by (cases blk)
  from Cons.prems(1) obtain backcast c difference res1 fc1 where
    out: "NHITSBlock_forward block md res (futr_exog w) (hist_exog w) (stat_exog w) = Inr (backcast, c)"
    and sub: "sub2 res backcast = Inr difference" and mul: "mul2 difference m = Inr res1"
    and rest: "forward_loop True blks w m (res1, fc1, acc @ [c]) = Inr (res', fc', acc @ cs)"
    by (auto simp: blk and_then_eq_Inr)
  from Cons.prems(3) have good: "forecast_size (basis block) = int H" "out_features (basis block) = int Q"
    "\<forall>x theta. layers_fn md x = Inr theta \<longrightarrow> length theta = length x"
    and others: "\<forall>(block, md)\<in>set blks. forecast_size (basis block) = int H
            \<and> out_features (basis block) = int Q
            \<and> (\<forall>x theta. layers_fn md x = Inr theta \<longrightarrow> length theta = length x)"
    by (simp_all add: blk)
  from NHITSBlock_forward_shape [OF out good]
  have same_rows: "length backcast = length res" and c: "has_shape3 (length res) H Q c" by simp_all
  from residual_update_length [OF sub mul same_rows Cons.prems(2)] have len: "length res1 = length res" .
  from forward_loop_collects [OF rest] obtain cs' where "acc @ cs = (acc @ [c]) @ cs'" by blast
  then have cs: "cs = c # cs'" by simp
  from rest have "forward_loop True blks w m (res1, fc1, acc @ [c]) = Inr (res', fc', (acc @ [c]) @ cs')"
    by (simp add: cs)
  from Cons.IH [OF this _ others] len Cons.prems(2) have "\<forall>c\<in>set cs'. has_shape3 (length res) H Q c"
    by simp
  with c show ?case by (simp add: cs)
qed

lemma initial_state_Inr:
  assumes "initial_state self w = Inr state"
  shows "\<exists>level. state = (map rev (insample_y w),
           map (\<lambda>row. map (\<lambda>v. [v]) (slice_from row (- 1))) (insample_y w), [level])"
  using assms by (auto simp: initial_state_def Let_def and_then_eq_Inr)

text \<open>
  Claim C1, for a model with at least one block. On the path without decomposition, when
  the blocks share the horizon \<open>H\<close> and the number of outputs \<open>Q\<close> and their projectors
  keep the batch size, a forward evaluation that returns \<open>out\<close> has
  \<open>out = domain_map (level + sum of the block forecasts)\<close>: entry \<open>(b, t, q)\<close> of the
  accumulated forecast is the last lookback value of window \<open>b\<close> plus the sum of the
  entries \<open>(b, t, q)\<close> of the block forecasts, which are the ones the loop collects when
  decomposition is on.
\<close>

theorem forecast_is_level_plus_block_forecasts:
  assumes "blocks self \<noteq> []" and "\<not> decompose_forecast self"
    and "\<forall>row\<in>set (insample_y w). row \<noteq> []"
    and "length (insample_mask w) = length (insample_y w)"
    and "\<forall>(block, md)\<in>set (blocks self). forecast_size (basis block) = int H
            \<and> out_features (basis block) = int Q
            \<and> (\<forall>x theta. layers_fn md x = Inr theta \<longrightarrow> length theta = length x)"
    and "NHITS_forward self w = Inr out"
  shows "\<exists>state residuals summed level block_forecasts.
           initial_state self w = Inr state
           \<and> forward_loop True (blocks self) w (map rev (insample_mask w)) state
               = Inr (residuals, summed, level # block_forecasts)
           \<and> length block_forecasts = length (blocks self)
           \<and> (\<forall>c\<in>set block_forecasts. has_shape3 (length (insample_y w)) H Q c)
           \<and> summed = table3 (length (insample_y w)) H Q
               (\<lambda>b t q. last (insample_y w ! b) + (\<Sum>c\<leftarrow>block_forecasts. c ! b ! t ! q))
           \<and> out = Forecast (domain_map self summed)"
proof -
  let ?y = "insample_y w"
  let ?m = "map rev (insample_mask w)"
  let ?level = "map (\<lambda>row. map (\<lambda>v. [v]) (slice_from row (- 1))) ?y"
  from assms(6) obtain state final where init: "initial_state self w = Inr state"
    and run: "forward_loop (decompose_forecast self) (blocks self) w ?m state = Inr final"
    by (auto simp: NHITS_forward_def and_then_eq_Inr)
  from initial_state_Inr [OF init] obtain first where
    state: "state = (map rev ?y, ?level, [first])" by blast
  obtain residuals summed kept where final: "final = (residuals, summed, kept)" by (cases final)
  from run assms(2) have "forward_loop False (blocks self) w ?m (map rev ?y, ?level, [first])
      = Inr (residuals, summed, kept)" by (simp add: state final)
  from forward_loop_flag_Inr [OF this] obtain collected where
    collected: "forward_loop True (blocks self) w ?m (map rev ?y, ?level, [first])
      = Inr (residuals, summed, collected)" by blast
  from forward_loop_collects [OF collected] obtain cs where
    cs: "collected = [first] @ cs" "length cs = length (blocks self)" by blast
  from collected have run': "forward_loop True (blocks self) w ?m (map rev ?y, ?level, [first])
      = Inr (residuals, summed, [first] @ cs)" by (simp add: cs)
  have "length ?m = length (map rev ?y)" using assms(4) by simp
  from forward_loop_shapes [OF run' this assms(5)]
  have shapes: "\<forall>c\<in>set cs. has_shape3 (length ?y) H Q c" by simp
  from assms(1) obtain blk blks where blks: "blocks self = blk # blks"
    by (cases "blocks self") auto
  from run' have "forward_loop True (blk # blks) w ?m (map rev ?y, ?level, [first])
      = Inr (residuals, summed, [first] @ cs)" by (simp add: blks)
  from forward_loop_from_level [OF this shapes assms(3)]
  have summed: "summed = table3 (length ?y) H Q
      (\<lambda>b t q. last (?y ! b) + (\<Sum>c\<leftarrow>cs. c ! b ! t ! q))" .
  from assms(6) init run assms(2) have out: "out = Forecast (domain_map self summed)"
    by (simp add: NHITS_forward_def final)
  from run' have "forward_loop True (blocks self) w ?m state = Inr (residuals, summed, first # cs)"
    by (simp add: state)
  with init cs(2) shapes summed out show ?thesis by blast
qed

text \<open>The example model with two blocks.\<close>

theorem forecast_is_level_plus_block_forecasts_witness:
  "NHITS_forward (example_model 1 2 False) example_batch
     = Inr (Forecast [[[4 + (6 + 3)], [4 + (2 + 2)]], [[8 + (14 + 7)], [8 + (2 + 2)]]])"
proof -
  let ?m = "example_model 1 2 False"
  have a: "blocks ?m \<noteq> []" "\<not> decompose_forecast ?m"
    "\<forall>row\<in>set (insample_y example_batch). row \<noteq> []"
    "length (insample_mask example_batch) = length (insample_y example_batch)"
    by (simp_all add: example_model_def example_batch_def)
  have uniform: "\<forall>(block, md)\<in>set (blocks ?m). forecast_size (basis block) = int 2
            \<and> out_features (basis block) = int 1
            \<and> (\<forall>x theta. layers_fn md x = Inr theta \<longrightarrow> length theta = length x)"
    by (auto simp: example_model_def example_block_def example_modules_def small_basis_def
        split: if_splits)
  have ok: "NHITS_forward ?m example_batch = Inr (Forecast [[[13], [8]], [[29], [12]]])"
    by code_simp
  have init: "initial_state ?m example_batch
       = Inr ([[4, 3, 2, 1], [8, 7, 6, 5]], [[[4]], [[8]]], [[[[4], [4]], [[8], [8]]]])"
    by code_simp
  have run: "forward_loop True (blocks ?m) example_batch (map rev (insample_mask example_batch))
       ([[4, 3, 2, 1], [8, 7, 6, 5]], [[[4]], [[8]]], [[[[4], [4]], [[8], [8]]]])
     = Inr ([[- 1, - 1, 2, 0], [- 1, - 5, 6, 3]], [[[13], [8]], [[29], [12]]],
            [[[4], [4]], [[8], [8]]] # [[[[6], [2]], [[14], [2]]], [[[3], [2]], [[7], [2]]]])"
    by code_simp
  from forecast_is_level_plus_block_forecasts [OF a uniform ok] init run
  have "Forecast [[[13], [8]], [[29], [12]]]
      = Forecast (domain_map ?m (table3 (length (insample_y example_batch)) 2 1
          (\<lambda>b t q. last (insample_y example_batch ! b)
             + (\<Sum>c\<leftarrow>[[[[6], [2]], [[14], [2]]], [[[3], [2]], [[7], [2]]]]. c ! b ! t ! q))))"
    by auto
  also have "\<dots> = Forecast [[[4 + (6 + 3)], [4 + (2 + 2)]], [[8 + (14 + 7)], [8 + (2 + 2)]]]"
    by (simp add: table3_def example_model_def example_batch_def upt_rec)
  finally show ?thesis using ok by simp
qed

text \<open>
  Against claim C1 as stated: with no block and \<open>h = 2\<close>, the forecast returned has one
  step per window; it is not the level broadcast over the two horizon steps,
  \<open>[[[4], [4]], [[8], [8]]]\<close>.
\<close>

theorem empty_block_list_counterexample:
  "NHITS_forward (example_model 1 0 False) example_batch = Inr (Forecast [[[4]], [[8]]])
   \<and> NHITS_forward (example_model 1 0 False) example_batch
       \<noteq> Inr (Forecast [[[4], [4]], [[8], [8]]])"
  by code_simp

lemma initial_state_eq:
  assumes "0 \<le> h self" and "\<forall>row\<in>set (insample_y w). row \<noteq> []"
  shows "initial_state self w =
           Inr (map rev (insample_y w), map (\<lambda>row. [[last row]]) (insample_y w),
                [map (\<lambda>row. replicate (nat (h self)) [last row]) (insample_y w)])"
proof -
  have level: "map (\<lambda>v. [v]) (slice_from row (- 1)) = [[last row]]"
    if "row \<in> set (insample_y w)" for row
  proof -
    from that assms(2) have "row \<noteq> []" by auto
    then have "drop (length row - 1) row = [last row]"
      by (cases row rule: rev_cases) auto
    then show ?thesis by (simp add: slice_from_def)
  qed
  have "concat (replicate n [[v]]) = replicate n [v]" for n and v :: real
    by (induction n) simp_all
  with level show ?thesis
    using assms(1) by (simp add: initial_state_def repeat1_def Let_def cong: map_cong)
qed



subsection \<open>The decomposition\<close>

lemma shape3_has_shape3:
  assumes "has_shape3 B H Q c" and "0 < B" and "0 < H"
  shows "shape3 c = [B, H, Q]"
proof -
  from assms(1,2) obtain m ms where c: "c = m # ms" by (cases c) (auto simp: has_shape3_def)
  with assms(1) have "length m = H" and rows: "list_all (\<lambda>r. length r = Q) m"
    by (simp_all add: has_shape3_def)
  with assms(3) obtain r rs where m: "m = r # rs" by (cases m) auto
  with rows have "length r = Q" by simp
  with assms(1) c m \<open>length m = H\<close> show ?thesis by (simp add: shape3_def has_shape3_def)
qed

lemma has_shape3_level:
  "has_shape3 (length y) H 1 (map (\<lambda>row. replicate H [last row]) y)"
  by (simp add: has_shape3_def list_all_iff)

text \<open>
  Claim C3, where the code departs from it. The seed of the decomposition list is the
  level repeated over the horizon, of shape \<open>[B, H, 1]\<close>; every block forecast has shape
  \<open>[B, H, Q]\<close>. When the number \<open>Q\<close> of outputs per step is not 1 and the model has a
  block, stacking the list raises: with decomposition requested, forward never returns.
\<close>

theorem decomposition_of_several_outputs_raises:
  assumes "decompose_forecast self" and "blocks self \<noteq> []"
    and "h self = int H" and "0 < H" and "Q \<noteq> 1"
    and "insample_y w \<noteq> []" and "\<forall>row\<in>set (insample_y w). row \<noteq> []"
    and "length (insample_mask w) = length (insample_y w)"
    and "\<forall>(block, md)\<in>set (blocks self). forecast_size (basis block) = int H
            \<and> out_features (basis block) = int Q
            \<and> (\<forall>x theta. layers_fn md x = Inr theta \<longrightarrow> length theta = length x)"
  shows "isl (NHITS_forward self w)"
proof (cases "NHITS_forward self w")
  case (Inl e)
  then show ?thesis by simp
next
  case (Inr out)
  let ?y = "insample_y w"
  let ?first = "map (\<lambda>row. replicate (nat (h self)) [last row]) ?y"
  have init: "initial_state self w = Inr (map rev ?y, map (\<lambda>row. [[last row]]) ?y, [?first])"
    using assms(3,7) by (intro initial_state_eq) simp_all
  from Inr assms(1) obtain residuals summed collected stacked where
    run: "forward_loop True (blocks self) w (map rev (insample_mask w))
            (map rev ?y, map (\<lambda>row. [[last row]]) ?y, [?first]) = Inr (residuals, summed, collected)"
    and stacked: "torch_stack collected = Inr stacked"
    by (auto simp: NHITS_forward_def init and_then_eq_Inr)
  from forward_loop_collects [OF run] obtain cs where
    cs: "collected = [?first] @ cs" "length cs = length (blocks self)" by blast
  with assms(2) obtain c cs' where c: "cs = c # cs'" by (cases cs) auto
  from run have "forward_loop True (blocks self) w (map rev (insample_mask w))
            (map rev ?y, map (\<lambda>row. [[last row]]) ?y, [?first]) = Inr (residuals, summed, [?first] @ cs)"
    by (simp add: cs)
  moreover have "length (map rev (insample_mask w)) = length (map rev ?y)" using assms(8) by simp
  ultimately have "\<forall>c\<in>set cs. has_shape3 (length (map rev ?y)) H Q c"
    using assms(9) by (rule forward_loop_shapes)
  with c have "has_shape3 (length ?y) H Q c" by simp
  with assms(4,6) have "shape3 c = [length ?y, H, Q]" by (intro shape3_has_shape3) simp_all
  moreover have "shape3 ?first = [length ?y, H, 1]"
    using has_shape3_level [of ?y H] assms(3,4,6) by (intro shape3_has_shape3) simp_all
  ultimately have "shape3 c \<noteq> shape3 ?first" using assms(5) by simp
  with stacked show ?thesis
    by (simp add: torch_stack_def cs c split: if_splits)
qed

text \<open>
  Two outputs per step and one block: stacking raises. The same model returns a forecast
  when decomposition is off.
\<close>

theorem decomposition_of_several_outputs_raises_witness:
  "isl (NHITS_forward (example_model 2 1 True) example_batch)
   \<and> NHITS_forward (example_model 2 1 True) example_batch
     = Inl (RuntimeError ''stack expects each tensor to be equal size'')
   \<and> NHITS_forward (example_model 2 1 False) example_batch
     = Inr (Forecast [[[10, 10], [6, 6]], [[22, 22], [10, 10]]])"
proof -
  let ?m = "example_model 2 1 True"
  have a: "decompose_forecast ?m" "blocks ?m \<noteq> []" "h ?m = int 2" "0 < (2::nat)" "(2::nat) \<noteq> 1"
    "insample_y example_batch \<noteq> []" "\<forall>row\<in>set (insample_y example_batch). row \<noteq> []"
    "length (insample_mask example_batch) = length (insample_y example_batch)"
    by (simp_all add: example_model_def example_batch_def)
  have uniform: "\<forall>(block, md)\<in>set (blocks ?m). forecast_size (basis block) = int 2
            \<and> out_features (basis block) = int 2
            \<and> (\<forall>x theta. layers_fn md x = Inr theta \<longrightarrow> length theta = length x)"
    by (auto simp: example_model_def example_block_def example_modules_def small_basis_def
        split: if_splits)
  have "isl (NHITS_forward ?m example_batch)"
    using a uniform by (rule decomposition_of_several_outputs_raises)
  moreover have "NHITS_forward ?m example_batch
     = Inl (RuntimeError ''stack expects each tensor to be equal size'')"
    by code_simp
  moreover have "NHITS_forward (example_model 2 1 False) example_batch
     = Inr (Forecast [[[10, 10], [6, 6]], [[22, 22], [10, 10]]])"
    by code_simp
  ultimately show ?thesis by simp
qed

text \<open>
  With one output per step the decomposition is returned as claim C3 says: the level and
  the block forecasts, stacked along a new second axis, the last axis dropped, and no
  domain mapping applied.
\<close>

lemma decomposition_univariate:
  assumes "decompose_forecast self" and "h self = int H" and "0 < H"
    and "insample_y w \<noteq> []" and "\<forall>row\<in>set (insample_y w). row \<noteq> []"
    and "length (insample_mask w) = length (insample_y w)"
    and "\<forall>(block, md)\<in>set (blocks self). forecast_size (basis block) = int H
            \<and> out_features (basis block) = int 1
            \<and> (\<forall>x theta. layers_fn md x = Inr theta \<longrightarrow> length theta = length x)"
    and "NHITS_forward self w = Inr out"
  shows "\<exists>state residuals summed level block_forecasts.
           initial_state self w = Inr state
           \<and> forward_loop True (blocks self) w (map rev (insample_mask w)) state
               = Inr (residuals, summed, level # block_forecasts)
           \<and> level = map (\<lambda>row. replicate H [last row]) (insample_y w)
           \<and> length block_forecasts = length (blocks self)
           \<and> out = Decomposition_univariate
                 (map (\<lambda>b. map (\<lambda>c. map (\<lambda>t. c ! b ! t ! 0) [0..<H]) (level # block_forecasts))
                    [0..<length (insample_y w)])"
proof -
  let ?y = "insample_y w"
  let ?B = "length ?y"
  let ?first = "map (\<lambda>row. replicate H [last row]) ?y"
  have init: "initial_state self w = Inr (map rev ?y, map (\<lambda>row. [[last row]]) ?y, [?first])"
    using initial_state_eq [of self w] assms(2,5) by simp
  from assms(8,1) obtain residuals summed collected stacked where
    run: "forward_loop True (blocks self) w (map rev (insample_mask w))
            (map rev ?y, map (\<lambda>row. [[last row]]) ?y, [?first]) = Inr (residuals, summed, collected)"
    and stacked: "torch_stack collected = Inr stacked"
    and out: "out = squeeze_last (permute_1023 stacked)"
    by (auto simp: NHITS_forward_def init and_then_eq_Inr)
  from forward_loop_collects [OF run] obtain cs where
    cs: "collected = [?first] @ cs" "length cs = length (blocks self)" by blast
  from run have "forward_loop True (blocks self) w (map rev (insample_mask w))
            (map rev ?y, map (\<lambda>row. [[last row]]) ?y, [?first]) = Inr (residuals, summed, [?first] @ cs)"
    by (simp add: cs)
  moreover have "length (map rev (insample_mask w)) = length (map rev ?y)" using assms(6) by simp
  ultimately have "\<forall>c\<in>set cs. has_shape3 (length (map rev ?y)) H 1 c"
    using assms(7) by (rule forward_loop_shapes)
  with has_shape3_level [of ?y H]
  have shapes: "\<forall>c\<in>set (?first # cs). has_shape3 ?B H 1 c" by simp
  from stacked have st: "stacked = ?first # cs"
    by (auto simp: torch_stack_def cs split: if_splits)
  from assms(4) have B: "0 < ?B" by simp
  have perm: "permute_1023 (?first # cs) = map (\<lambda>b. map (\<lambda>v. v ! b) (?first # cs)) [0..<?B]"
    by (simp add: permute_1023_def)
  from B have upt: "[0..<?B] = 0 # [1..<?B]" by (simp add: upt_conv_Cons)
  have first0: "?first ! 0 = replicate H [last (?y ! 0)]" using B by simp
  have "shape3 (map (\<lambda>v. v ! 0) (?first # cs)) ! 2 = 1"
    using assms(3) B by (cases H) (simp_all add: shape3_def)
  then have "squeeze_last (permute_1023 (?first # cs))
      = Decomposition_univariate (map (map (map hd)) (permute_1023 (?first # cs)))"
    unfolding perm by (subst (1 2) upt) (simp add: squeeze_last_def)
  moreover have "map (map (map hd)) (permute_1023 (?first # cs))
      = map (\<lambda>b. map (\<lambda>c. map (\<lambda>t. c ! b ! t ! 0) [0..<H]) (?first # cs)) [0..<?B]"
    unfolding perm
  proof (simp only: map_map comp_def, rule map_cong [OF refl], rule map_cong [OF refl])
    fix b c assume "b \<in> set [0..<?B]" and c: "c \<in> set (?first # cs)"
    then have b: "b < ?B" by simp
    from shapes c have shape: "has_shape3 ?B H 1 c" by blast
    note dims = has_shape3D [OF shape]
    show "map hd (c ! b) = map (\<lambda>t. c ! b ! t ! 0) [0..<H]"
    proof (rule nth_equalityI)
      show "length (map hd (c ! b)) = length (map (\<lambda>t. c ! b ! t ! 0) [0..<H])"
        using dims(2) [OF b] by simp
    next
      fix t assume "t < length (map hd (c ! b))"
      then have t: "t < H" using dims(2) [OF b] by simp
      from dims(3) [OF b t] have "hd (c ! b ! t) = c ! b ! t ! 0"
        by (cases "c ! b ! t") simp_all
      with t dims(2) [OF b] show "map hd (c ! b) ! t = map (\<lambda>t. c ! b ! t ! 0) [0..<H] ! t"
        by simp
    qed
  qed
  ultimately have "out = Decomposition_univariate
      (map (\<lambda>b. map (\<lambda>c. map (\<lambda>t. c ! b ! t ! 0) [0..<H]) (?first # cs)) [0..<?B])"
    by (simp add: out st)
  moreover from run have "forward_loop True (blocks self) w (map rev (insample_mask w))
            (map rev ?y, map (\<lambda>row. [[last row]]) ?y, [?first]) = Inr (residuals, summed, ?first # cs)"
    by (simp add: cs)
  ultimately show ?thesis using init cs(2) by blast
qed

lemma decomposition_univariate_example:
  "NHITS_forward (example_model 1 2 True) example_batch
     = Inr (Decomposition_univariate [[[4, 4], [6, 2], [3, 2]], [[8, 8], [14, 2], [7, 2]]])"
  by code_simp

end
